theory Spec2Isabelle
  imports Main "HOL-Library.Sublist" "HOL-Library.Log_Nat"
begin

section \<open>Numbers\<close>

text \<open>
  A JavaScript Number is an IEEE-754 binary64 value. A finite one is modelled by the rational
  it denotes; \<open>NaN\<close> and the two infinities are separate values. Signed zero is not modelled
  (every zero is \<open>Num 0\<close>). Each arithmetic operation computes the exact rational result and
  rounds it with \<open>fl\<close>: to the nearest value with a 53-bit significand, ties to the even
  significand, with gradual underflow below \<open>2\<^sup>-\<^sup>1\<^sup>0\<^sup>2\<^sup>2\<close> and overflow to an infinity.
\<close>

datatype number = Num rat | NaN | PInf | NInf

definition binade :: "rat \<Rightarrow> int" where
  "binade x = (let (p, q) = quotient_of x; d = bitlen p - bitlen q
               in if 2 powi d \<le> x then d else d - 1)"

definition round_even :: "rat \<Rightarrow> int" where
  "round_even y = (let f = \<lfloor>y\<rfloor>; d = y - of_int f
                   in if d < 1 / 2 then f
                      else if 1 / 2 < d then f + 1
                      else if even f then f else f + 1)"

definition fl :: "rat \<Rightarrow> number" where
  "fl x = (if x = 0 then Num 0
           else let e = max (binade \<bar>x\<bar>) (- 1022);
                    u = 2 powi (e - 52);
                    r = of_int (round_even (x / u)) * u
                in if 2 powi 1024 \<le> \<bar>r\<bar> then (if 0 < x then PInf else NInf) else Num r)"

fun fdiv :: "number \<Rightarrow> number \<Rightarrow> number" where
  "fdiv (Num a) (Num b) =
     (if b = 0 then (if a = 0 then NaN else if 0 < a then PInf else NInf) else fl (a / b))"
| "fdiv NaN _ = NaN"
| "fdiv _ NaN = NaN"
| "fdiv (Num a) PInf = Num 0"
| "fdiv (Num a) NInf = Num 0"
| "fdiv PInf (Num b) = (if 0 \<le> b then PInf else NInf)"
| "fdiv NInf (Num b) = (if 0 \<le> b then NInf else PInf)"
| "fdiv _ _ = NaN"

fun fmul :: "number \<Rightarrow> number \<Rightarrow> number" where
  "fmul (Num a) (Num b) = fl (a * b)"
| "fmul NaN _ = NaN"
| "fmul _ NaN = NaN"
| "fmul (Num a) PInf = (if a = 0 then NaN else if 0 < a then PInf else NInf)"
| "fmul (Num a) NInf = (if a = 0 then NaN else if 0 < a then NInf else PInf)"
| "fmul PInf (Num b) = (if b = 0 then NaN else if 0 < b then PInf else NInf)"
| "fmul NInf (Num b) = (if b = 0 then NaN else if 0 < b then NInf else PInf)"
| "fmul PInf PInf = PInf"
| "fmul NInf NInf = PInf"
| "fmul PInf NInf = NInf"
| "fmul NInf PInf = NInf"

text \<open>\<open>Math.round\<close>: the nearest integer, a tie going up.\<close>

fun Math_round :: "number \<Rightarrow> number" where
  "Math_round (Num r) = Num (of_int \<lfloor>r + 1 / 2\<rfloor>)"
| "Math_round n = n"

text \<open>The Number of an array length or of an element count (exact below \<open>2\<^sup>5\<^sup>3\<close>).\<close>

definition number_of_nat :: "nat \<Rightarrow> number" where
  "number_of_nat n = Num (of_nat n)"

section \<open>Strings\<close>

text \<open>
  \<open>s.includes(t)\<close>: \<open>t\<close> occurs in \<open>s\<close> as a contiguous run of code units.
\<close>

fun str_includes :: "string \<Rightarrow> string \<Rightarrow> bool" where
  "str_includes [] t = (t = [])"
| "str_includes (c # s) t = (prefix t (c # s) \<or> str_includes s t)"

text \<open>\<open>xs.join(sep)\<close> on an array of strings.\<close>

fun join :: "string \<Rightarrow> string list \<Rightarrow> string" where
  "join sep [] = []"
| "join sep [x] = x"
| "join sep (x # y # ys) = x @ sep @ join sep (y # ys)"

text \<open>
  Template literals turn a Number into its decimal numeral. The counts and the rounded
  percentage rendered by this program are integers (lemma \<open>vote_percentage\<close> below); the
  digits of a fractional Number (its shortest round-trip decimal) are not modelled, its
  integer part is printed.
\<close>

fun nat_str :: "nat \<Rightarrow> string" where
  "nat_str n = (if n < 10 then [''0123456789'' ! n]
                else nat_str (n div 10) @ [''0123456789'' ! (n mod 10)])"

definition int_str :: "int \<Rightarrow> string" where
  "int_str i = (if i < 0 then CHR ''-'' # nat_str (nat (- i)) else nat_str (nat i))"

fun Number_toString :: "number \<Rightarrow> string" where
  "Number_toString (Num r) = int_str \<lfloor>r\<rfloor>"
| "Number_toString NaN = ''NaN''"
| "Number_toString PInf = ''Infinity''"
| "Number_toString NInf = ''-Infinity''"

section \<open>Values of unknown shape and the schemas that validate them\<close>

datatype jsval =
    JUndefined
  | JNull
  | JBool bool
  | JNum number
  | JStr string
  | JArr "jsval list"
  | JObj "(string \<times> jsval) list"

text \<open>Reading a property: a missing key reads as \<open>undefined\<close>.\<close>

definition field :: "string \<Rightarrow> (string \<times> jsval) list \<Rightarrow> jsval" where
  "field k kvs = (case map_of kvs k of None \<Rightarrow> JUndefined | Some v \<Rightarrow> v)"

text \<open>
  A schema maps a value to the typed value it validates to, or to \<open>None\<close> where
  \<open>parse\<close> throws. \<open>z.object\<close> keeps the declared keys only.
\<close>

definition z_string :: "jsval \<Rightarrow> string option" where
  "z_string v = (case v of JStr s \<Rightarrow> Some s | _ \<Rightarrow> None)"

definition z_number :: "jsval \<Rightarrow> number option" where
  "z_number v = (case v of JNum n \<Rightarrow> (if n = NaN then None else Some n) | _ \<Rightarrow> None)"

definition z_boolean :: "jsval \<Rightarrow> bool option" where
  "z_boolean v = (case v of JBool b \<Rightarrow> Some b | _ \<Rightarrow> None)"

definition z_unknown :: "jsval \<Rightarrow> jsval option" where
  "z_unknown v = Some v"

definition z_enum :: "(string \<times> 'a) list \<Rightarrow> jsval \<Rightarrow> 'a option" where
  "z_enum names v = (case v of JStr s \<Rightarrow> map_of names s | _ \<Rightarrow> None)"

definition z_array :: "(jsval \<Rightarrow> 'a option) \<Rightarrow> jsval \<Rightarrow> 'a list option" where
  "z_array p v = (case v of JArr xs \<Rightarrow> those (map p xs) | _ \<Rightarrow> None)"

definition z_record :: "(jsval \<Rightarrow> 'a option) \<Rightarrow> jsval \<Rightarrow> (string \<times> 'a) list option" where
  "z_record p v =
     (case v of JObj kvs \<Rightarrow> those (map (\<lambda>(k, x). map_option (Pair k) (p x)) kvs)
      | _ \<Rightarrow> None)"

definition z_optional :: "(jsval \<Rightarrow> 'a option) \<Rightarrow> jsval \<Rightarrow> 'a option option" where
  "z_optional p v = (case v of JUndefined \<Rightarrow> Some None | _ \<Rightarrow> map_option Some (p v))"

definition z_object :: "((string \<times> jsval) list \<Rightarrow> 'a option) \<Rightarrow> jsval \<Rightarrow> 'a option" where
  "z_object p v = (case v of JObj kvs \<Rightarrow> p kvs | _ \<Rightarrow> None)"

subsection \<open>delegate_to_model\<close>

record Capabilities =
  reasoning :: number
  contextWindow :: number
  codeGeneration :: number
  speed :: number
  cost :: number

record Alternative =
  model :: string
  score :: number
  tradeoff :: string

record Governance =
  domain :: string
  votingThreshold :: string
  promotionReason :: string

record DelegateResponse =
  recommended_model :: string
  reasoning :: string
  capabilities :: Capabilities
  estimated_tokens :: number
  alternatives :: "Alternative list"
  governance :: "Governance option"

definition CapabilitiesSchema :: "jsval \<Rightarrow> Capabilities option" where
  "CapabilitiesSchema = z_object (\<lambda>obj.
     Option.bind (z_number (field ''reasoning'' obj)) (\<lambda>r.
     Option.bind (z_number (field ''contextWindow'' obj)) (\<lambda>cw.
     Option.bind (z_number (field ''codeGeneration'' obj)) (\<lambda>cg.
     Option.bind (z_number (field ''speed'' obj)) (\<lambda>sp.
     Option.bind (z_number (field ''cost'' obj)) (\<lambda>co.
     Some \<lparr>Capabilities.reasoning = r, contextWindow = cw, codeGeneration = cg,
           speed = sp, cost = co\<rparr>))))))"

definition AlternativeSchema :: "jsval \<Rightarrow> Alternative option" where
  "AlternativeSchema = z_object (\<lambda>obj.
     Option.bind (z_string (field ''model'' obj)) (\<lambda>m.
     Option.bind (z_number (field ''score'' obj)) (\<lambda>sc.
     Option.bind (z_string (field ''tradeoff'' obj)) (\<lambda>t.
     Some \<lparr>model = m, score = sc, tradeoff = t\<rparr>))))"

definition GovernanceSchema :: "jsval \<Rightarrow> Governance option" where
  "GovernanceSchema = z_object (\<lambda>obj.
     Option.bind (z_string (field ''domain'' obj)) (\<lambda>d.
     Option.bind (z_string (field ''votingThreshold'' obj)) (\<lambda>vt.
     Option.bind (z_string (field ''promotionReason'' obj)) (\<lambda>pr.
     Some \<lparr>domain = d, votingThreshold = vt, promotionReason = pr\<rparr>))))"

definition DelegateResponseSchema :: "jsval \<Rightarrow> DelegateResponse option" where
  "DelegateResponseSchema = z_object (\<lambda>obj.
     Option.bind (z_string (field ''recommended_model'' obj)) (\<lambda>rm.
     Option.bind (z_string (field ''reasoning'' obj)) (\<lambda>re.
     Option.bind (CapabilitiesSchema (field ''capabilities'' obj)) (\<lambda>ca.
     Option.bind (z_number (field ''estimated_tokens'' obj)) (\<lambda>et.
     Option.bind (z_array AlternativeSchema (field ''alternatives'' obj)) (\<lambda>al.
     Option.bind (z_optional GovernanceSchema (field ''governance'' obj)) (\<lambda>go.
     Some \<lparr>recommended_model = rm, DelegateResponse.reasoning = re, capabilities = ca,
           estimated_tokens = et, alternatives = al, governance = go\<rparr>)))))))"

subsection \<open>weather_report\<close>

datatype TaskCategory =
    architecture
  | code_generation
  | code_review
  | research
  | security_review
  | planning
  | documentation
  | testing
  | devops
  | exploration

fun category_str :: "TaskCategory \<Rightarrow> string" where
  "category_str architecture = ''architecture''"
| "category_str code_generation = ''code_generation''"
| "category_str code_review = ''code_review''"
| "category_str research = ''research''"
| "category_str security_review = ''security_review''"
| "category_str planning = ''planning''"
| "category_str documentation = ''documentation''"
| "category_str testing = ''testing''"
| "category_str devops = ''devops''"
| "category_str exploration = ''exploration''"

record CategoryStats =
  count :: number
  successRate :: number
  avgDurationMs :: number

record CliWeather =
  cli :: string
  totalTasks :: number
  successRate :: number
  avgDurationMs :: number
  byCategory :: "(string \<times> CategoryStats) list"

record AdaptiveBonus =
  cli :: string
  category :: string
  staticBonus :: number
  adaptiveBonus :: number
  sampleCount :: number
  sufficient :: bool

record RecommendedMapping =
  category :: string
  recommendedCli :: string
  successRate :: number
  sampleCount :: number
  confidence :: string

record Overall =
  totalTasks :: number
  successRate :: number
  avgDurationMs :: number

record WeatherResponse =
  overall :: Overall
  cliWeather :: "CliWeather list"
  adaptiveBonuses :: "AdaptiveBonus list"
  tierRecommendations :: "(string \<times> jsval) list list"
  learningInsights :: "(string \<times> jsval) list list option"
  recommendedMappings :: "RecommendedMapping list option"
  explorationRate :: number
  coldStartThreshold :: number
  collectedAt :: string

definition CategoryStatsSchema :: "jsval \<Rightarrow> CategoryStats option" where
  "CategoryStatsSchema = z_object (\<lambda>obj.
     Option.bind (z_number (field ''count'' obj)) (\<lambda>c.
     Option.bind (z_number (field ''successRate'' obj)) (\<lambda>sr.
     Option.bind (z_number (field ''avgDurationMs'' obj)) (\<lambda>ad.
     Some \<lparr>count = c, CategoryStats.successRate = sr, CategoryStats.avgDurationMs = ad\<rparr>))))"

definition CliWeatherSchema :: "jsval \<Rightarrow> CliWeather option" where
  "CliWeatherSchema = z_object (\<lambda>obj.
     Option.bind (z_string (field ''cli'' obj)) (\<lambda>c.
     Option.bind (z_number (field ''totalTasks'' obj)) (\<lambda>tt.
     Option.bind (z_number (field ''successRate'' obj)) (\<lambda>sr.
     Option.bind (z_number (field ''avgDurationMs'' obj)) (\<lambda>ad.
     Option.bind (z_record CategoryStatsSchema (field ''byCategory'' obj)) (\<lambda>bc.
     Some \<lparr>CliWeather.cli = c, CliWeather.totalTasks = tt, CliWeather.successRate = sr,
           CliWeather.avgDurationMs = ad, byCategory = bc\<rparr>))))))"

definition AdaptiveBonusSchema :: "jsval \<Rightarrow> AdaptiveBonus option" where
  "AdaptiveBonusSchema = z_object (\<lambda>obj.
     Option.bind (z_string (field ''cli'' obj)) (\<lambda>c.
     Option.bind (z_string (field ''category'' obj)) (\<lambda>ca.
     Option.bind (z_number (field ''staticBonus'' obj)) (\<lambda>sb.
     Option.bind (z_number (field ''adaptiveBonus'' obj)) (\<lambda>ab.
     Option.bind (z_number (field ''sampleCount'' obj)) (\<lambda>sc.
     Option.bind (z_boolean (field ''sufficient'' obj)) (\<lambda>su.
     Some \<lparr>AdaptiveBonus.cli = c, AdaptiveBonus.category = ca, staticBonus = sb,
           adaptiveBonus = ab, AdaptiveBonus.sampleCount = sc, sufficient = su\<rparr>)))))))"

definition RecommendedMappingSchema :: "jsval \<Rightarrow> RecommendedMapping option" where
  "RecommendedMappingSchema = z_object (\<lambda>obj.
     Option.bind (z_string (field ''category'' obj)) (\<lambda>ca.
     Option.bind (z_string (field ''recommendedCli'' obj)) (\<lambda>rc.
     Option.bind (z_number (field ''successRate'' obj)) (\<lambda>sr.
     Option.bind (z_number (field ''sampleCount'' obj)) (\<lambda>sc.
     Option.bind (z_string (field ''confidence'' obj)) (\<lambda>co.
     Some \<lparr>RecommendedMapping.category = ca, recommendedCli = rc,
           RecommendedMapping.successRate = sr, RecommendedMapping.sampleCount = sc,
           confidence = co\<rparr>))))))"

definition OverallSchema :: "jsval \<Rightarrow> Overall option" where
  "OverallSchema = z_object (\<lambda>obj.
     Option.bind (z_number (field ''totalTasks'' obj)) (\<lambda>tt.
     Option.bind (z_number (field ''successRate'' obj)) (\<lambda>sr.
     Option.bind (z_number (field ''avgDurationMs'' obj)) (\<lambda>ad.
     Some \<lparr>Overall.totalTasks = tt, Overall.successRate = sr,
           Overall.avgDurationMs = ad\<rparr>))))"

definition WeatherResponseSchema :: "jsval \<Rightarrow> WeatherResponse option" where
  "WeatherResponseSchema = z_object (\<lambda>obj.
     Option.bind (OverallSchema (field ''overall'' obj)) (\<lambda>ov.
     Option.bind (z_array CliWeatherSchema (field ''cliWeather'' obj)) (\<lambda>cw.
     Option.bind (z_array AdaptiveBonusSchema (field ''adaptiveBonuses'' obj)) (\<lambda>ab.
     Option.bind (z_array (z_record z_unknown) (field ''tierRecommendations'' obj)) (\<lambda>tr.
     Option.bind (z_optional (z_array (z_record z_unknown)) (field ''learningInsights'' obj)) (\<lambda>li.
     Option.bind (z_optional (z_array RecommendedMappingSchema)
                    (field ''recommendedMappings'' obj)) (\<lambda>rm.
     Option.bind (z_number (field ''explorationRate'' obj)) (\<lambda>er.
     Option.bind (z_number (field ''coldStartThreshold'' obj)) (\<lambda>cs.
     Option.bind (z_string (field ''collectedAt'' obj)) (\<lambda>cat.
     Some \<lparr>overall = ov, cliWeather = cw, adaptiveBonuses = ab, tierRecommendations = tr,
           learningInsights = li, recommendedMappings = rm, explorationRate = er,
           coldStartThreshold = cs, collectedAt = cat\<rparr>))))))))))"

subsection \<open>consensus_vote\<close>

datatype VotingStrategy =
  simple_majority | supermajority | unanimous | proof_of_learning | higher_order

definition STRATEGIES :: "(string \<times> VotingStrategy) list" where
  "STRATEGIES =
     [(''simple_majority'', simple_majority), (''supermajority'', supermajority),
      (''unanimous'', unanimous), (''proof_of_learning'', proof_of_learning),
      (''higher_order'', higher_order)]"

fun strategy_str :: "VotingStrategy \<Rightarrow> string" where
  "strategy_str simple_majority = ''simple_majority''"
| "strategy_str supermajority = ''supermajority''"
| "strategy_str unanimous = ''unanimous''"
| "strategy_str proof_of_learning = ''proof_of_learning''"
| "strategy_str higher_order = ''higher_order''"

datatype VoteDecision = approved | rejected | pending | timeout

datatype AgentDecision = Approve | Reject | Abstain

record AgentVote =
  role :: string
  decision :: AgentDecision
  confidence :: number
  reasoning :: string
  simulated :: bool
  error :: bool

record VoteCounts =
  approve :: number
  reject :: number
  abstain :: number
  error :: number

record VoteResponse =
  proposal :: string
  strategy :: VotingStrategy
  decision :: VoteDecision
  approvalPercentage :: number
  voteCounts :: VoteCounts
  votes :: "AgentVote list"
  durationMs :: number
  simulateVotes :: bool

definition AgentVoteSchema :: "jsval \<Rightarrow> AgentVote option" where
  "AgentVoteSchema = z_object (\<lambda>obj.
     Option.bind (z_string (field ''role'' obj)) (\<lambda>ro.
     Option.bind (z_enum [(''approve'', Approve), (''reject'', Reject), (''abstain'', Abstain)]
                    (field ''decision'' obj)) (\<lambda>de.
     Option.bind (z_number (field ''confidence'' obj)) (\<lambda>co.
     Option.bind (z_string (field ''reasoning'' obj)) (\<lambda>re.
     Option.bind (z_boolean (field ''simulated'' obj)) (\<lambda>si.
     Option.bind (z_boolean (field ''error'' obj)) (\<lambda>er.
     Some \<lparr>role = ro, AgentVote.decision = de, confidence = co, AgentVote.reasoning = re,
           simulated = si, AgentVote.error = er\<rparr>)))))))"

definition VoteCountsSchema :: "jsval \<Rightarrow> VoteCounts option" where
  "VoteCountsSchema = z_object (\<lambda>obj.
     Option.bind (z_number (field ''approve'' obj)) (\<lambda>ap.
     Option.bind (z_number (field ''reject'' obj)) (\<lambda>rj.
     Option.bind (z_number (field ''abstain'' obj)) (\<lambda>ab.
     Option.bind (z_number (field ''error'' obj)) (\<lambda>er.
     Some \<lparr>approve = ap, reject = rj, abstain = ab, VoteCounts.error = er\<rparr>)))))"

definition VoteResponseSchema :: "jsval \<Rightarrow> VoteResponse option" where
  "VoteResponseSchema = z_object (\<lambda>obj.
     Option.bind (z_string (field ''proposal'' obj)) (\<lambda>pr.
     Option.bind (z_enum STRATEGIES (field ''strategy'' obj)) (\<lambda>st.
     Option.bind (z_enum [(''approved'', approved), (''rejected'', rejected),
                          (''pending'', pending), (''timeout'', timeout)]
                    (field ''decision'' obj)) (\<lambda>de.
     Option.bind (z_number (field ''approvalPercentage'' obj)) (\<lambda>ap.
     Option.bind (VoteCountsSchema (field ''voteCounts'' obj)) (\<lambda>vc.
     Option.bind (z_array AgentVoteSchema (field ''votes'' obj)) (\<lambda>vs.
     Option.bind (z_number (field ''durationMs'' obj)) (\<lambda>du.
     Option.bind (z_boolean (field ''simulateVotes'' obj)) (\<lambda>sv.
     Some \<lparr>proposal = pr, strategy = st, VoteResponse.decision = de, approvalPercentage = ap,
           voteCounts = vc, votes = vs, durationMs = du, simulateVotes = sv\<rparr>)))))))))"

section \<open>Routing oracle types\<close>

datatype PreferredCapability = Reasoning | Context | Speed | Code

fun capability_str :: "PreferredCapability \<Rightarrow> string" where
  "capability_str Reasoning = ''reasoning''"
| "capability_str Context = ''context''"
| "capability_str Speed = ''speed''"
| "capability_str Code = ''code''"

record RoutingExpectation =
  category :: TaskCategory
  task :: string
  preferredCapability :: PreferredCapability
  expectedPrimaryCli :: string
  acceptableModels :: "string list"

record RoutingValidation =
  category :: TaskCategory
  recommended :: string
  expected :: string
  correct :: bool
  reasoning :: string
  alternatives :: "string list"

record OracleReport =
  validations :: "RoutingValidation list"
  accuracy :: number
  weather :: "WeatherResponse option"
  voteResult :: "VoteResponse option"

record OracleConfig =
  expectations :: "RoutingExpectation list"
  includeWeather :: "bool option"
  includeVote :: "bool option"
  voteStrategy :: "VotingStrategy option"

section \<open>Promises and the tool caller\<close>

text \<open>
  An asynchronous computation is a function of the state of the world outside the pipeline
  (whatever the tool caller reads and updates): it settles with a value (\<open>Inr\<close>) or rejects
  with a fault (\<open>Inl\<close>), and leaves a new state. \<open>await\<close> runs one computation after the
  other has settled; a rejection skips the rest, up to the enclosing \<open>try_catch\<close>.
  A call that never settles is outside this model.
\<close>

datatype fault = Rejected jsval | ZodError

type_synonym ('s, 'a) promise = "'s \<Rightarrow> (fault + 'a) \<times> 's"

definition resolve :: "'a \<Rightarrow> ('s, 'a) promise" where
  "resolve a s = (Inr a, s)"

definition await :: "('s, 'a) promise \<Rightarrow> ('a \<Rightarrow> ('s, 'b) promise) \<Rightarrow> ('s, 'b) promise" where
  "await m k s = (case m s of (Inl e, s') \<Rightarrow> (Inl e, s') | (Inr a, s') \<Rightarrow> k a s')"

definition try_catch :: "('s, 'a) promise \<Rightarrow> ('s, 'a) promise \<Rightarrow> ('s, 'a) promise" where
  "try_catch m h s = (case m s of (Inl e, s') \<Rightarrow> h s' | (Inr a, s') \<Rightarrow> (Inr a, s'))"

definition parse :: "(jsval \<Rightarrow> 'a option) \<Rightarrow> jsval \<Rightarrow> ('s, 'a) promise" where
  "parse schema raw s = (case schema raw of None \<Rightarrow> (Inl ZodError, s) | Some a \<Rightarrow> (Inr a, s))"

type_synonym tool_args = "(string \<times> jsval) list"

type_synonym 's ToolCaller = "string \<Rightarrow> tool_args \<Rightarrow> ('s, jsval) promise"

text \<open>
  A caller that also keeps the list of the calls it received, in order, as the test
  double of the repository does.
\<close>

definition recording :: "'s ToolCaller \<Rightarrow> ('s \<times> (string \<times> tool_args) list) ToolCaller" where
  "recording caller toolName args =
     (\<lambda>(s, calls). case caller toolName args s of (r, s') \<Rightarrow> (r, (s', calls @ [(toolName, args)])))"

section \<open>Individual steps\<close>

definition routeAndValidate ::
  "'s ToolCaller \<Rightarrow> RoutingExpectation \<Rightarrow> ('s, RoutingValidation) promise" where
  "routeAndValidate caller expectation =
     await (caller ''delegate_to_model''
              [(''task'', JStr (task expectation)),
               (''preferred_capability'',
                  JStr (capability_str (preferredCapability expectation)))]) (\<lambda>raw.
     await (parse DelegateResponseSchema raw) (\<lambda>result.
     let is_correct = list_ex
           (\<lambda>m. str_includes (recommended_model result) m
                \<or> str_includes m (recommended_model result))
           (acceptableModels expectation)
     in resolve
          \<lparr>RoutingValidation.category = RoutingExpectation.category expectation,
           recommended = recommended_model result,
           expected = expectedPrimaryCli expectation,
           correct = is_correct,
           RoutingValidation.reasoning = DelegateResponse.reasoning result,
           RoutingValidation.alternatives = map model (DelegateResponse.alternatives result)\<rparr>))"

definition fetchWeather :: "'s ToolCaller \<Rightarrow> ('s, WeatherResponse) promise" where
  "fetchWeather caller =
     await (caller ''weather_report'' [(''includeAdaptive'', JBool True)]) (\<lambda>raw.
     parse WeatherResponseSchema raw)"

text \<open>
  The strategy parameter has a default, which an absent (\<open>undefined\<close>) argument selects.
\<close>

definition voteOnQuality ::
  "'s ToolCaller \<Rightarrow> RoutingValidation list \<Rightarrow> VotingStrategy option \<Rightarrow> ('s, VoteResponse) promise"
  where
  "voteOnQuality caller vs strategy_arg =
     (let strategy = (case strategy_arg of None \<Rightarrow> simple_majority | Some st \<Rightarrow> st);
          n_correct = length (filter correct vs);
          total = length vs;
          accuracy = (if 0 < total
                      then Math_round (fmul (fdiv (number_of_nat n_correct) (number_of_nat total))
                                         (Num 100))
                      else Num 0);
          summary = join ''\<newline>''
            (map (\<lambda>v. category_str (RoutingValidation.category v) @ '': ''
                       @ (if correct v then ''CORRECT'' else ''WRONG'') @ '' ''
                       @ ''(got '' @ recommended v @ '', expected '' @ expected v @ '')'') vs);
          proposal =
            ''Routing accuracy is '' @ Number_toString accuracy @ ''% (''
              @ nat_str n_correct @ ''/'' @ nat_str total @ '' correct).\<newline>\<newline>''
            @ ''Results:\<newline>'' @ summary @ ''\<newline>\<newline>''
            @ ''Should we approve this routing quality?''
      in await (caller ''consensus_vote''
                  [(''proposal'', JStr proposal),
                   (''strategy'', JStr (strategy_str strategy)),
                   (''quickMode'', JBool True),
                   (''simulateVotes'', JBool False)]) (\<lambda>raw.
         parse VoteResponseSchema raw))"

section \<open>Accuracy computation\<close>

definition computeAccuracy :: "RoutingValidation list \<Rightarrow> number" where
  "computeAccuracy vs =
     (if length vs = 0 then Num 0
      else let n_correct = length (filter correct vs)
           in fdiv (Math_round (fmul (fdiv (number_of_nat n_correct) (number_of_nat (length vs)))
                                   (Num 1000)))
                   (Num 1000))"

definition getMisrouted :: "RoutingValidation list \<Rightarrow> RoutingValidation list" where
  "getMisrouted vs = filter (\<lambda>v. \<not> correct v) vs"

definition weatherConfirms :: "WeatherResponse \<Rightarrow> string \<Rightarrow> string \<Rightarrow> bool" where
  "weatherConfirms w cat expectedCli =
     (case Option.bind (recommendedMappings w)
             (find (\<lambda>m. RecommendedMapping.category m = cat)) of
        None \<Rightarrow> False
      | Some mapping \<Rightarrow> recommendedCli mapping = expectedCli)"

section \<open>Full pipeline\<close>

text \<open>
  The Route loop: \<open>validations\<close> is the array built so far; each iteration pushes the
  validation of one expectation, or the synthetic one when its call or its parse threw.
\<close>

fun routeStage ::
  "'s ToolCaller \<Rightarrow> RoutingExpectation list \<Rightarrow> RoutingValidation list
     \<Rightarrow> ('s, RoutingValidation list) promise" where
  "routeStage caller [] vs = resolve vs"
| "routeStage caller (e # es) vs =
     await (try_catch
              (await (routeAndValidate caller e) (\<lambda>v. resolve (vs @ [v])))
              (resolve (vs @ [\<lparr>RoutingValidation.category = RoutingExpectation.category e,
                               recommended = ''ERROR'',
                               expected = expectedPrimaryCli e,
                               correct = False,
                               RoutingValidation.reasoning = ''Tool call failed'',
                               RoutingValidation.alternatives = []\<rparr>])))
       (\<lambda>vs'. routeStage caller es vs')"

definition runOraclePipeline :: "'s ToolCaller \<Rightarrow> OracleConfig \<Rightarrow> ('s, OracleReport) promise" where
  "runOraclePipeline caller config =
     await (routeStage caller (expectations config) []) (\<lambda>vs.
     let acc = computeAccuracy vs in
     await (if includeWeather config = Some True
            then try_catch (await (fetchWeather caller) (\<lambda>w. resolve (Some w))) (resolve None)
            else resolve None) (\<lambda>wr.
     await (if includeVote config = Some True
            then try_catch
                   (await (voteOnQuality caller vs (voteStrategy config))
                      (\<lambda>v. resolve (Some v)))
                   (resolve None)
            else resolve None) (\<lambda>vr.
     resolve \<lparr>validations = vs, accuracy = acc, weather = wr, voteResult = vr\<rparr>)))"

section \<open>Test double and fixtures\<close>

text \<open>
  A tool caller that answers from a script, one entry per call in order, whatever the tool,
  and rejects once the script is used up. Its state is the rest of the script. The fixtures
  are those of \<open>fixtures/mock-responses.ts\<close>: the first two of \<open>DEFAULT_EXPECTATIONS\<close> and
  four of the mock responses, as the values a caller returns.
\<close>

fun scripted :: "((fault + jsval) list) ToolCaller" where
  "scripted toolName args [] = (Inl (Rejected (JStr ''No mock'')), [])"
| "scripted toolName args (r # rs) = (r, rs)"

definition expectation_architecture :: RoutingExpectation where
  "expectation_architecture =
     \<lparr>RoutingExpectation.category = architecture,
      task = ''Design a microservices architecture for a payment system'',
      preferredCapability = Reasoning,
      expectedPrimaryCli = ''claude'',
      acceptableModels = [''claude-opus'', ''claude-sonnet'']\<rparr>"

definition expectation_code_generation :: RoutingExpectation where
  "expectation_code_generation =
     \<lparr>RoutingExpectation.category = code_generation,
      task = ''Write unit tests for a TypeScript REST API'',
      preferredCapability = Code,
      expectedPrimaryCli = ''codex'',
      acceptableModels = [''codex-5.3'', ''codex-5.2'', ''claude-sonnet'']\<rparr>"

definition MOCK_DELEGATE_ARCHITECTURE :: jsval where
  "MOCK_DELEGATE_ARCHITECTURE = JObj
     [(''recommended_model'', JStr ''claude-opus''),
      (''reasoning'',
         JStr ''Selected claude-opus for architecture task: strong reasoning, plan billing''),
      (''capabilities'', JObj
         [(''reasoning'', JNum (Num 10)), (''contextWindow'', JNum (Num 200000)),
          (''codeGeneration'', JNum (Num 9)), (''speed'', JNum (Num 5)),
          (''cost'', JNum (Num 10))]),
      (''estimated_tokens'', JNum (Num 30)),
      (''alternatives'', JArr
         [JObj [(''model'', JStr ''claude-sonnet''), (''score'', JNum (Num 66)),
                (''tradeoff'', JStr ''faster but less capable'')],
          JObj [(''model'', JStr ''gemini-pro''), (''score'', JNum (Num 55)),
                (''tradeoff'', JStr ''cheaper but less capable'')]])]"

definition MOCK_DELEGATE_WRONG :: jsval where
  "MOCK_DELEGATE_WRONG = JObj
     [(''recommended_model'', JStr ''gemini-flash''),
      (''reasoning'', JStr ''Selected gemini-flash: fast fallback model''),
      (''capabilities'', JObj
         [(''reasoning'', JNum (Num 6)), (''contextWindow'', JNum (Num 1000000)),
          (''codeGeneration'', JNum (Num 6)), (''speed'', JNum (Num 10)),
          (''cost'', JNum (Num 2))]),
      (''estimated_tokens'', JNum (Num 15)),
      (''alternatives'', JArr [])]"

definition MOCK_WEATHER_COLD :: jsval where
  "MOCK_WEATHER_COLD = JObj
     [(''overall'', JObj [(''totalTasks'', JNum (Num 0)), (''successRate'', JNum (Num 0)),
                          (''avgDurationMs'', JNum (Num 0))]),
      (''cliWeather'', JArr []),
      (''adaptiveBonuses'', JArr []),
      (''tierRecommendations'', JArr []),
      (''explorationRate'', JNum (fl (1 / 10))),
      (''coldStartThreshold'', JNum (Num 10)),
      (''collectedAt'', JStr ''2026-02-14T12:00:00Z'')]"

definition MOCK_VOTE_APPROVED :: jsval where
  "MOCK_VOTE_APPROVED = JObj
     [(''proposal'', JStr ''Routing quality is acceptable''),
      (''strategy'', JStr ''simple_majority''),
      (''decision'', JStr ''approved''),
      (''approvalPercentage'', JNum (Num 100)),
      (''voteCounts'', JObj [(''approve'', JNum (Num 3)), (''reject'', JNum (Num 0)),
                             (''abstain'', JNum (Num 0)), (''error'', JNum (Num 0))]),
      (''votes'', JArr
         [JObj [(''role'', JStr ''Software Architect''), (''decision'', JStr ''approve''),
                (''confidence'', JNum (fl (9 / 10))),
                (''reasoning'', JStr ''Routing decisions match expected mappings.''),
                (''simulated'', JBool False), (''error'', JBool False)],
          JObj [(''role'', JStr ''Security Engineer''), (''decision'', JStr ''approve''),
                (''confidence'', JNum (fl (85 / 100))),
                (''reasoning'', JStr ''Security tasks correctly routed to claude.''),
                (''simulated'', JBool False), (''error'', JBool False)],
          JObj [(''role'', JStr ''Developer Experience''), (''decision'', JStr ''approve''),
                (''confidence'', JNum (fl (88 / 100))),
                (''reasoning'', JStr ''Code tasks routed to codex as expected.''),
                (''simulated'', JBool False), (''error'', JBool False)]]),
      (''durationMs'', JNum (Num 15000)),
      (''simulateVotes'', JBool False)]"

text \<open>
  A cold snapshot carrying the given mapping list, two mappings of the healthy snapshot, and
  two validations of the unit tests.
\<close>

definition weather_snapshot :: "RecommendedMapping list option \<Rightarrow> WeatherResponse" where
  "weather_snapshot ms =
     \<lparr>overall = \<lparr>Overall.totalTasks = Num 0, Overall.successRate = Num 0,
                 Overall.avgDurationMs = Num 0\<rparr>,
      cliWeather = [], adaptiveBonuses = [], tierRecommendations = [],
      learningInsights = None, recommendedMappings = ms,
      explorationRate = fl (1 / 10), coldStartThreshold = Num 10,
      collectedAt = ''2026-02-14T12:00:00Z''\<rparr>"

definition mapping_architecture :: RecommendedMapping where
  "mapping_architecture =
     \<lparr>RecommendedMapping.category = ''architecture'', recommendedCli = ''claude'',
      RecommendedMapping.successRate = Num 1, RecommendedMapping.sampleCount = Num 8,
      confidence = ''medium''\<rparr>"

definition mapping_code_generation :: RecommendedMapping where
  "mapping_code_generation =
     \<lparr>RecommendedMapping.category = ''code_generation'', recommendedCli = ''codex'',
      RecommendedMapping.successRate = fl (9 / 10), RecommendedMapping.sampleCount = Num 10,
      confidence = ''high''\<rparr>"

definition validation_pass :: RoutingValidation where
  "validation_pass =
     \<lparr>RoutingValidation.category = architecture, recommended = ''a'', expected = ''a'',
      correct = True, RoutingValidation.reasoning = [], RoutingValidation.alternatives = []\<rparr>"

definition validation_fail :: RoutingValidation where
  "validation_fail =
     \<lparr>RoutingValidation.category = testing, recommended = ''x'', expected = ''b'',
      correct = False, RoutingValidation.reasoning = [], RoutingValidation.alternatives = []\<rparr>"

text \<open>The validations the unit tests expect for the two routing fixtures.\<close>

definition validation_architecture :: RoutingValidation where
  "validation_architecture =
     \<lparr>RoutingValidation.category = architecture, recommended = ''claude-opus'',
      expected = ''claude'', correct = True,
      RoutingValidation.reasoning =
        ''Selected claude-opus for architecture task: strong reasoning, plan billing'',
      RoutingValidation.alternatives = [''claude-sonnet'', ''gemini-pro'']\<rparr>"

definition validation_wrong :: RoutingValidation where
  "validation_wrong =
     \<lparr>RoutingValidation.category = architecture, recommended = ''gemini-flash'',
      expected = ''claude'', correct = False,
      RoutingValidation.reasoning = ''Selected gemini-flash: fast fallback model'',
      RoutingValidation.alternatives = []\<rparr>"

text \<open>An expectation whose acceptable model is named like the failure marker.\<close>

definition expectation_error_named :: RoutingExpectation where
  "expectation_error_named = expectation_architecture\<lparr>acceptableModels := [''ERROR'']\<rparr>"

section \<open>Shorthands used in the statements\<close>

text \<open>The argument map of the routing call for an expectation.\<close>

abbreviation delegate_args :: "RoutingExpectation \<Rightarrow> tool_args" where
  "delegate_args e \<equiv>
     [(''task'', JStr (task e)),
      (''preferred_capability'', JStr (capability_str (preferredCapability e)))]"

text \<open>The validation pushed by the \<open>catch\<close> branch of the Route loop.\<close>

abbreviation synthetic :: "RoutingExpectation \<Rightarrow> RoutingValidation" where
  "synthetic e \<equiv>
     \<lparr>RoutingValidation.category = RoutingExpectation.category e,
      recommended = ''ERROR'',
      expected = expectedPrimaryCli e,
      correct = False,
      RoutingValidation.reasoning = ''Tool call failed'',
      RoutingValidation.alternatives = []\<rparr>"

text \<open>The validation \<open>routeAndValidate\<close> returns for a parsed response.\<close>

abbreviation validated :: "RoutingExpectation \<Rightarrow> DelegateResponse \<Rightarrow> RoutingValidation" where
  "validated e result \<equiv>
     \<lparr>RoutingValidation.category = RoutingExpectation.category e,
      recommended = recommended_model result,
      expected = expectedPrimaryCli e,
      correct = list_ex (\<lambda>m. str_includes (recommended_model result) m
                              \<or> str_includes m (recommended_model result))
                  (acceptableModels e),
      RoutingValidation.reasoning = DelegateResponse.reasoning result,
      RoutingValidation.alternatives = map model (DelegateResponse.alternatives result)\<rparr>"

section \<open>Rounding stays within bounds\<close>

lemma round_even_nonneg: "0 \<le> y \<Longrightarrow> 0 \<le> round_even y"
  by (auto simp: round_even_def Let_def)

lemma round_even_le: "y \<le> of_int N \<Longrightarrow> round_even y \<le> N"
proof -
  assume a: "y \<le> of_int N"
  then have f: "\<lfloor>y\<rfloor> \<le> N" by (simp add: floor_le_iff)
  show ?thesis
  proof (cases "\<lfloor>y\<rfloor> = N")
    case True
    then have "y - of_int \<lfloor>y\<rfloor> \<le> 0" using a by simp
    then show ?thesis using True by (simp add: round_even_def Let_def)
  next
    case False
    then have "\<lfloor>y\<rfloor> + 1 \<le> N" using f by simp
    then show ?thesis by (auto simp: round_even_def Let_def)
  qed
qed

text \<open>The binade of a positive rational starts at or below it.\<close>

lemma binade_le:
  assumes "0 < x"
  shows "2 powi (binade x) \<le> x"
proof -
  obtain p q where pq: "quotient_of x = (p, q)" by (cases "quotient_of x")
  then have q: "0 < q" and x: "x = of_int p / of_int q"
    using quotient_of_denom_pos quotient_of_div by blast+
  have p: "0 < p" using assms q x by (simp add: zero_less_divide_iff)
  let ?d = "bitlen p - bitlen q"
  show ?thesis
  proof (cases "2 powi ?d \<le> x")
    case True
    then show ?thesis by (simp add: binade_def pq)
  next
    case False
    then have b: "binade x = ?d - 1" by (simp add: binade_def pq)
    have bp: "1 \<le> bitlen p" and bq: "1 \<le> bitlen q"
      using p q by (auto simp: bitlen_alt_def)
    have lo: "(2::int) ^ nat (bitlen p - 1) \<le> p" using bitlen_bounds[OF p] by simp
    have hi: "q < (2::int) ^ nat (bitlen q)" using bitlen_bounds[OF q] by simp
    have lo': "(2::rat) ^ nat (bitlen p - 1) \<le> of_int p"
      using lo by (metis of_int_le_iff of_int_numeral of_int_power)
    have hi': "of_int q \<le> (2::rat) ^ nat (bitlen q)"
      using hi by (metis less_imp_le of_int_le_iff of_int_numeral of_int_power)
    have "(2::rat) powi (?d - 1) = 2 powi (bitlen p - 1) / 2 powi (bitlen q)"
      by (simp add: power_int_diff)
    also have "\<dots> = 2 ^ nat (bitlen p - 1) / 2 ^ nat (bitlen q)"
      using bp bq by (simp add: power_int_def)
    also have "\<dots> \<le> of_int p / of_int q"
      using lo' hi' q p by (intro frac_le) auto
    finally show ?thesis using b x by simp
  qed
qed

text \<open>... and ends above it: \<open>binade x\<close> is the exponent of \<open>x\<close>.\<close>

lemma binade_gt:
  assumes "0 < x"
  shows "x < 2 powi (binade x + 1)"
proof -
  obtain p q where pq: "quotient_of x = (p, q)" by (cases "quotient_of x")
  then have q: "0 < q" and x: "x = of_int p / of_int q"
    using quotient_of_denom_pos quotient_of_div by blast+
  have p: "0 < p" using assms q x by (simp add: zero_less_divide_iff)
  let ?d = "bitlen p - bitlen q"
  show ?thesis
  proof (cases "2 powi ?d \<le> x")
    case True
    then have b: "binade x = ?d" by (simp add: binade_def pq)
    have bp: "1 \<le> bitlen p" and bq: "1 \<le> bitlen q"
      using p q by (auto simp: bitlen_alt_def)
    have hi: "p < (2::int) ^ nat (bitlen p)" using bitlen_bounds[OF p] by simp
    have lo: "(2::int) ^ nat (bitlen q - 1) \<le> q" using bitlen_bounds[OF q] by simp
    have hi': "of_int p < (2::rat) ^ nat (bitlen p)"
      using hi by (metis of_int_less_iff of_int_numeral of_int_power)
    have lo': "(2::rat) ^ nat (bitlen q - 1) \<le> of_int q"
      using lo by (metis of_int_le_iff of_int_numeral of_int_power)
    have "of_int p / of_int q < (2::rat) ^ nat (bitlen p) / 2 ^ nat (bitlen q - 1)"
      using hi' lo' q p by (intro frac_less) auto
    also have "\<dots> = 2 powi (bitlen p) / 2 powi (bitlen q - 1)"
      using bp bq by (simp add: power_int_def)
    also have "\<dots> = 2 powi (?d + 1)"
    proof -
      have "?d + 1 = bitlen p - (bitlen q - 1)" by simp
      then have "(2::rat) powi (?d + 1) = 2 powi (bitlen p - (bitlen q - 1))" by (simp only:)
      also have "\<dots> = 2 powi (bitlen p) / 2 powi (bitlen q - 1)"
        by (rule power_int_diff) simp
      finally show ?thesis by simp
    qed
    finally show ?thesis using b x by simp
  next
    case False
    then show ?thesis by (simp add: binade_def pq)
  qed
qed

lemma below_two_53: "x \<le> of_nat M \<Longrightarrow> M < 2 ^ 53 \<Longrightarrow> (x::rat) < 2 ^ 53"
proof -
  assume a: "x \<le> of_nat M" "M < 2 ^ 53"
  have "(of_nat M :: rat) < of_nat (2 ^ 53)" using a(2) by (simp only: of_nat_less_iff)
  then show ?thesis using a(1) by simp
qed

lemma ulp_small: "e \<le> 52 \<Longrightarrow> (2::rat) powi (e - 52) = 1 / 2 ^ nat (52 - e)"
  by (simp add: power_int_def field_simps)

lemma no_overflow: "r < (2::rat) ^ 53 \<Longrightarrow> r < 2 powi 1024"
proof -
  assume "r < (2::rat) ^ 53"
  also have "(2::rat) ^ 53 \<le> 2 ^ 1024" by (rule power_increasing) auto
  finally show ?thesis by (simp only: power_int_numeral)
qed

lemma round_even_error: "\<bar>of_int (round_even y) - y\<bar> \<le> 1 / 2"
proof -
  have "of_int \<lfloor>y\<rfloor> \<le> y" and "y < of_int \<lfloor>y\<rfloor> + 1" by linarith+
  then show ?thesis by (auto simp: round_even_def Let_def)
qed

text \<open>
  Rounding a value in \<open>[0, M]\<close>, for an integer \<open>M\<close> below \<open>2\<^sup>5\<^sup>3\<close>, gives a finite Number
  in \<open>[0, M]\<close> (such an integer is a multiple of the unit in the last place of every smaller
  value), at a distance of at most \<open>x / 2\<^sup>5\<^sup>3 + 2\<^sup>-\<^sup>1\<^sup>0\<^sup>7\<^sup>5\<close>, hence of at most \<open>(x + 1) / 2\<^sup>5\<^sup>3\<close>.
\<close>

lemma fl_bounded:
  assumes "0 \<le> x" and "x \<le> of_nat M" and "M < 2 ^ 53"
  shows "\<exists>r. fl x = Num r \<and> 0 \<le> r \<and> r \<le> of_nat M
             \<and> \<bar>r - x\<bar> \<le> (x + 1) / 2 ^ 53"
proof (cases "x = 0")
  case True
  then show ?thesis by (simp add: fl_def)
next
  case False
  then have xpos: "0 < x" using assms(1) by simp
  define e where "e = max (binade \<bar>x\<bar>) (- 1022)"
  define k where "k = nat (52 - e)"
  have lo: "(2::rat) powi (binade x) \<le> x" by (rule binade_le[OF xpos])
  also have "x < 2 ^ 53" by (rule below_two_53[OF assms(2,3)])
  finally have "(2::rat) powi (binade x) < 2 powi 53" by (simp only: power_int_numeral)
  then have "binade x < 53" by (rule power_int_le_imp_less_exp[rotated]) simp_all
  then have e52: "e \<le> 52" using xpos by (simp add: e_def)
  have u: "(2::rat) powi (e - 52) = 1 / 2 ^ k"
    unfolding k_def by (rule ulp_small[OF e52])
  define n where "n = round_even (x * 2 ^ k)"
  have n0: "0 \<le> n" unfolding n_def using assms(1) by (intro round_even_nonneg) simp
  have "x * 2 ^ k \<le> of_int (int M * 2 ^ k)" using assms(2) by simp
  then have nM: "n \<le> int M * 2 ^ k" unfolding n_def by (rule round_even_le)
  define r where "r = (of_int n :: rat) / 2 ^ k"
  have r0: "0 \<le> r" using n0 by (simp add: r_def)
  have "(of_int n :: rat) \<le> of_int (int M * 2 ^ k)" using nM by (simp only: of_int_le_iff)
  then have rM: "r \<le> of_nat M" by (simp add: r_def field_simps)
  have "r < 2 powi 1024" by (rule no_overflow[OF below_two_53[OF rM assms(3)]])
  then have ov: "\<not> 2 powi 1024 \<le> \<bar>r\<bar>" using r0 by (simp only: abs_of_nonneg not_le)
  have "fl x = (let u = 2 powi (e - 52); r = of_int (round_even (x / u)) * u
                in if 2 powi 1024 \<le> \<bar>r\<bar> then (if 0 < x then PInf else NInf) else Num r)"
    using False unfolding fl_def e_def by (simp only: Let_def if_False)
  also have "\<dots> = (if 2 powi 1024 \<le> \<bar>r\<bar> then (if 0 < x then PInf else NInf) else Num r)"
    unfolding Let_def u r_def n_def
    by (simp only: divide_divide_eq_right div_by_1 mult_1 times_divide_eq_right mult_1_right)
  finally have fl: "fl x = Num r" using ov by (simp only: if_False)
  have "\<bar>of_int n - x * 2 ^ k\<bar> \<le> 1 / 2" unfolding n_def by (rule round_even_error)
  then have "\<bar>of_int n - x * 2 ^ k\<bar> / 2 ^ k \<le> (1 / 2) / 2 ^ k"
    by (rule divide_right_mono) simp
  moreover have "\<bar>of_int n - x * 2 ^ k\<bar> / 2 ^ k = \<bar>r - x\<bar>"
  proof -
    have "r - x = (of_int n - x * 2 ^ k) / 2 ^ k" by (simp add: r_def field_simps)
    then show ?thesis by (simp add: abs_divide)
  qed
  ultimately have err: "\<bar>r - x\<bar> \<le> 2 powi (e - 52) / 2" unfolding u by simp
  have ulp: "(2::rat) powi (e - 52) \<le> x / 2 ^ 52 + 2 powi (- 1074)"
  proof (cases "- 1022 \<le> binade x")
    case True
    then have "e = binade x" using xpos by (simp add: e_def)
    moreover have "(2::rat) powi (binade x - 52) = 2 powi (binade x) / 2 powi 52"
      by (rule power_int_diff) simp
    ultimately have "(2::rat) powi (e - 52) = 2 powi (binade x) / 2 powi 52"
      by (simp only:)
    also have "\<dots> = 2 powi (binade x) / 2 ^ 52" by (simp only: power_int_numeral)
    also have "\<dots> \<le> x / 2 ^ 52" using lo by (rule divide_right_mono) simp
    finally show ?thesis using zero_le_power_int[of "2::rat" "- 1074"] by linarith
  next
    case False
    then have "e = - 1022" using xpos by (simp add: e_def)
    moreover have "(- 1022 :: int) - 52 = - 1074" by simp
    ultimately have "(2::rat) powi (e - 52) = 2 powi (- 1074)" by (simp only:)
    then show ?thesis using xpos by (simp only: le_add_same_cancel2) simp
  qed
  have half: "(2::rat) powi (- 1074) / 2 = 2 powi (- 1075)"
  proof -
    have "(- 1075 :: int) = - 1074 - 1" by simp
    then have "(2::rat) powi (- 1075) = 2 powi (- 1074 - 1)" by (simp only:)
    also have "\<dots> = 2 powi (- 1074) / 2 powi 1" by (rule power_int_diff) simp
    finally show ?thesis by (simp only: power_int_1_right)
  qed
  have tiny: "(2::rat) powi (- 1075) \<le> 1 / 2 ^ 53"
  proof -
    have "(2::rat) powi (- 1075) \<le> 2 powi (- 53)" by (rule power_int_increasing) simp_all
    also have "\<dots> = 1 / 2 ^ 53" by simp
    finally show ?thesis .
  qed
  have "(2::rat) powi (e - 52) / 2 \<le> (x / 2 ^ 52 + 2 powi (- 1074)) / 2"
    using ulp by (rule divide_right_mono) simp
  with err have "\<bar>r - x\<bar> \<le> (x / 2 ^ 52 + 2 powi (- 1074)) / 2"
    by (rule order_trans)
  also have "\<dots> = x / 2 ^ 52 / 2 + 2 powi (- 1074) / 2" by (rule add_divide_distrib)
  also have "\<dots> = x / 2 ^ 53 + 2 powi (- 1075)" unfolding half by simp
  also have "\<dots> \<le> x / 2 ^ 53 + 1 / 2 ^ 53" using tiny by (rule add_left_mono)
  also have "\<dots> = (x + 1) / 2 ^ 53" by (rule add_divide_distrib[symmetric])
  finally show ?thesis using fl r0 rM by blast
qed

section \<open>The steps and the Route loop\<close>

lemma str_includes_sublist: "str_includes s t \<longleftrightarrow> sublist t s"
  by (induction s) (simp_all add: sublist_Cons_right)

lemma str_includes_iff: "str_includes s t \<longleftrightarrow> (\<exists>p q. s = p @ t @ q)"
  by (simp add: str_includes_sublist sublist_def)

lemmas promise_defs = resolve_def await_def try_catch_def parse_def

lemma routeAndValidate_eq:
  "routeAndValidate c e s =
     (case c ''delegate_to_model'' (delegate_args e) s of
        (Inl f, s') \<Rightarrow> (Inl f, s')
      | (Inr raw, s') \<Rightarrow>
          (case DelegateResponseSchema raw of
             None \<Rightarrow> (Inl ZodError, s')
           | Some result \<Rightarrow> (Inr (validated e result), s')))"
  unfolding routeAndValidate_def promise_defs Let_def
  by (simp split: prod.splits sum.splits option.splits)

lemma routeAndValidate_Inr:
  assumes "routeAndValidate c e s = (Inr v, s')"
  shows "\<exists>raw result. c ''delegate_to_model'' (delegate_args e) s = (Inr raw, s')
        \<and> DelegateResponseSchema raw = Some result \<and> v = validated e result"
  using assms unfolding routeAndValidate_eq
  by (auto split: prod.splits sum.splits option.splits)

lemma routeStage_Cons:
  "routeStage c (e # es) vs s =
     (case routeAndValidate c e s of
        (Inl f, s') \<Rightarrow> routeStage c es (vs @ [synthetic e]) s'
      | (Inr v, s') \<Rightarrow> routeStage c es (vs @ [v]) s')"
  by (simp add: promise_defs split: prod.splits sum.splits)

declare routeStage.simps(2) [simp del]

lemma routeStage_acc:
  "routeStage c es vs s =
     (case routeStage c es [] s of
        (Inl f, s') \<Rightarrow> (Inl f, s')
      | (Inr us, s') \<Rightarrow> (Inr (vs @ us), s'))"
proof (induction es arbitrary: vs s)
  case Nil
  then show ?case by (simp add: resolve_def)
next
  case (Cons e es)
  have step: "routeStage c es (vs @ [v]) s1 =
        (case routeStage c es [v] s1 of
           (Inl f, s') \<Rightarrow> (Inl f, s')
         | (Inr us, s') \<Rightarrow> (Inr (vs @ us), s'))" for v s1
  proof -
    obtain r s' where r: "routeStage c es [] s1 = (r, s')" by (cases "routeStage c es [] s1")
    show ?thesis
      by (subst Cons.IH[of "vs @ [v]"], subst Cons.IH[of "[v]"]) (cases r; simp add: r)
  qed
  obtain r s1 where r: "routeAndValidate c e s = (r, s1)" by (cases "routeAndValidate c e s")
  show ?case
    by (cases r) (simp_all add: routeStage_Cons r step)
qed

lemma routeStage_step:
  "routeStage c (e # es) [] s =
     (case routeAndValidate c e s of
        (r, s1) \<Rightarrow>
          (case routeStage c es [] s1 of
             (Inl f, s2) \<Rightarrow> (Inl f, s2)
           | (Inr us, s2) \<Rightarrow> (Inr ((case r of Inl f \<Rightarrow> synthetic e | Inr v \<Rightarrow> v) # us), s2)))"
proof -
  obtain r s1 where r: "routeAndValidate c e s = (r, s1)" by (cases "routeAndValidate c e s")
  obtain q s2 where q: "routeStage c es [] s1 = (q, s2)" by (cases "routeStage c es [] s1")
  show ?thesis
    by (cases r; cases q) (simp_all add: routeStage_Cons r routeStage_acc[of c es "[v]" for v] q)
qed

lemma routeStage_total: "\<exists>us s'. routeStage c es [] s = (Inr us, s')"
proof (induction es arbitrary: s)
  case Nil
  show ?case by (simp add: resolve_def)
next
  case (Cons e es)
  obtain r s1 where r: "routeAndValidate c e s = (r, s1)" by (cases "routeAndValidate c e s")
  obtain us s2 where us: "routeStage c es [] s1 = (Inr us, s2)" using Cons.IH[of s1] by blast
  show ?case by (simp add: routeStage_step r us)
qed

lemma routeStage_append:
  assumes "routeStage c es1 [] s = (Inr us, s1)" and "routeStage c es2 [] s1 = (Inr ws, s2)"
  shows "routeStage c (es1 @ es2) [] s = (Inr (us @ ws), s2)"
  using assms
proof (induction es1 arbitrary: s us)
  case Nil
  then show ?case by (simp add: resolve_def)
next
  case (Cons e es1)
  obtain r t where r: "routeAndValidate c e s = (r, t)" by (cases "routeAndValidate c e s")
  obtain us' t' where us': "routeStage c es1 [] t = (Inr us', t')"
    using routeStage_total[of c es1 t] by blast
  from Cons.prems(1) have eq: "us = (case r of Inl f \<Rightarrow> synthetic e | Inr v \<Rightarrow> v) # us'" "t' = s1"
    by (simp_all add: routeStage_step r us')
  have "routeStage c (es1 @ es2) [] t = (Inr (us' @ ws), s2)"
    using Cons.IH[OF _ Cons.prems(2)] us' eq(2) by simp
  then show ?case by (simp add: routeStage_step r eq)
qed

text \<open>each validation comes from the expectation at the same position\<close>

lemma routeStage_pointwise:
  assumes "routeStage c es [] s = (Inr us, s')"
  shows "list_all2 (\<lambda>e v. v = synthetic e \<or> (\<exists>result. v = validated e result)) es us"
  using assms
proof (induction es arbitrary: s us s')
  case Nil
  then show ?case by (simp add: resolve_def)
next
  case (Cons e es)
  obtain r t where r: "routeAndValidate c e s = (r, t)" by (cases "routeAndValidate c e s")
  obtain us' t' where us': "routeStage c es [] t = (Inr us', t')"
    using routeStage_total[of c es t] by blast
  from Cons.prems have us: "us = (case r of Inl f \<Rightarrow> synthetic e | Inr v \<Rightarrow> v) # us'"
    by (simp add: routeStage_step r us')
  have hd: "(case r of Inl f \<Rightarrow> synthetic e | Inr v \<Rightarrow> v) = synthetic e
        \<or> (\<exists>result. (case r of Inl f \<Rightarrow> synthetic e | Inr v \<Rightarrow> v) = validated e result)"
  proof (cases r)
    case (Inl f)
    then show ?thesis by simp
  next
    case (Inr v)
    with r routeAndValidate_Inr[of c e s v t] show ?thesis by auto
  qed
  show ?case unfolding us using hd Cons.IH[OF us'] by simp
qed

lemma runOraclePipeline_eq:
  assumes "routeStage c (expectations cfg) [] s0 = (Inr vs, s1)"
  shows "runOraclePipeline c cfg s0 =
     (case (if includeWeather cfg = Some True
            then (case fetchWeather c s1 of
                    (Inl f, s2) \<Rightarrow> (None, s2) | (Inr w, s2) \<Rightarrow> (Some w, s2))
            else (None, s1)) of
        (wr, s2) \<Rightarrow>
          (case (if includeVote cfg = Some True
                 then (case voteOnQuality c vs (voteStrategy cfg) s2 of
                         (Inl f, s3) \<Rightarrow> (None, s3) | (Inr v, s3) \<Rightarrow> (Some v, s3))
                 else (None, s2)) of
             (vr, s3) \<Rightarrow>
               (Inr \<lparr>validations = vs, accuracy = computeAccuracy vs,
                     weather = wr, voteResult = vr\<rparr>, s3)))"
  unfolding runOraclePipeline_def Let_def
  by (simp add: promise_defs assms split: prod.splits sum.splits)

lemma pipeline_returns: "\<exists>rep s'. runOraclePipeline c cfg s = (Inr rep, s')"
proof -
  obtain vs s1 where "routeStage c (expectations cfg) [] s = (Inr vs, s1)"
    using routeStage_total[of c "expectations cfg" s] by blast
  then show ?thesis
    by (simp add: runOraclePipeline_eq split: prod.splits sum.splits)
qed

section \<open>The rounded ratio\<close>

text \<open>
  \<open>Math.round((c / n) * S)\<close> for counts \<open>c \<le> n\<close> and an integer scale \<open>S\<close>: an
  integer between 0 and \<open>S\<close>, at most a half (and the rounding errors of the two operations)
  away from the exact \<open>S \<cdot> c / n\<close>.
\<close>

lemma scaled_round:
  assumes "c \<le> n" and "0 < n" and "S < 2 ^ 53"
  shows "\<exists>k. Math_round (fmul (fdiv (number_of_nat c) (number_of_nat n)) (Num (of_nat S)))
               = Num (of_int k) \<and> 0 \<le> k \<and> k \<le> int S
             \<and> \<bar>of_int k - of_nat S * of_nat c / of_nat n\<bar>
                 \<le> (1 / 2 + (3 * of_nat S + 1) / 2 ^ 53 :: rat)"
proof -
  define x1 :: rat where "x1 = of_nat c / of_nat n"
  have q0: "0 \<le> x1" by (simp add: x1_def)
  have q1: "x1 \<le> of_nat 1" using assms(1,2) by (simp add: x1_def)
  obtain r1 where r1: "fl x1 = Num r1" "0 \<le> r1" "r1 \<le> 1" "\<bar>r1 - x1\<bar> \<le> (x1 + 1) / 2 ^ 53"
    using fl_bounded[OF q0 q1] by auto
  have d: "fdiv (number_of_nat c) (number_of_nat n) = Num r1"
    using assms(2) r1(1) by (simp add: number_of_nat_def x1_def)
  have e1: "\<bar>r1 - x1\<bar> \<le> 2 / 2 ^ 53"
  proof -
    have "(x1 + 1) / 2 ^ 53 \<le> (1 + 1) / 2 ^ 53"
      using q1 by (intro divide_right_mono) simp_all
    with r1(4) show ?thesis by simp
  qed
  define x2 where "x2 = r1 * of_nat S"
  have m0: "0 \<le> x2" using r1(2) by (simp add: x2_def)
  have m1: "x2 \<le> of_nat S" using r1(2,3) by (simp add: x2_def mult_left_le_one_le)
  obtain r2 where r2: "fl x2 = Num r2" "0 \<le> r2" "r2 \<le> of_nat S"
      "\<bar>r2 - x2\<bar> \<le> (x2 + 1) / 2 ^ 53"
    using fl_bounded[OF m0 m1 assms(3)] by auto
  have e2: "\<bar>r2 - x2\<bar> \<le> (of_nat S + 1) / 2 ^ 53"
  proof -
    have "(x2 + 1) / 2 ^ 53 \<le> (of_nat S + 1) / 2 ^ 53"
      using m1 by (intro divide_right_mono) simp_all
    with r2(4) show ?thesis by simp
  qed
  have e3: "\<bar>x2 - of_nat S * x1\<bar> \<le> of_nat S * (2 / 2 ^ 53)"
  proof -
    have "x2 - of_nat S * x1 = of_nat S * (r1 - x1)" by (simp add: x2_def algebra_simps)
    then have "\<bar>x2 - of_nat S * x1\<bar> = of_nat S * \<bar>r1 - x1\<bar>" by (simp add: abs_mult)
    also have "\<dots> \<le> of_nat S * (2 / 2 ^ 53)" using e1 by (intro mult_left_mono) simp_all
    finally show ?thesis .
  qed
  define k where "k = \<lfloor>r2 + 1 / 2\<rfloor>"
  have round: "Math_round (fmul (fdiv (number_of_nat c) (number_of_nat n)) (Num (of_nat S)))
        = Num (of_int k)"
    using r2(1) by (simp add: d k_def x2_def)
  have k0: "0 \<le> k" using r2(2) by (simp add: k_def)
  have kS: "k \<le> int S"
  proof -
    have "r2 + 1 / 2 < of_int (int S + 1)" using r2(3) by simp
    then have "\<lfloor>r2 + 1 / 2\<rfloor> < int S + 1" by (simp only: floor_less_iff)
    then show ?thesis by (simp add: k_def)
  qed
  have e4: "\<bar>of_int k - r2\<bar> \<le> 1 / 2"
  proof -
    have "of_int k \<le> r2 + 1 / 2" and "r2 + 1 / 2 < of_int k + 1"
      unfolding k_def by linarith+
    then show ?thesis by linarith
  qed
  have "of_int k - of_nat S * x1 = (of_int k - r2) + (r2 - x2) + (x2 - of_nat S * x1)"
    by simp
  then have "\<bar>of_int k - of_nat S * x1\<bar>
        \<le> \<bar>of_int k - r2\<bar> + \<bar>r2 - x2\<bar> + \<bar>x2 - of_nat S * x1\<bar>"
    by linarith
  also have "\<dots> \<le> 1 / 2 + (of_nat S + 1) / 2 ^ 53 + of_nat S * (2 / 2 ^ 53)"
    using e4 e2 e3 by linarith
  also have "\<dots> = 1 / 2 + (3 * of_nat S + 1) / 2 ^ 53"
    by (simp add: field_simps)
  finally have close: "\<bar>of_int k - of_nat S * of_nat c / of_nat n\<bar>
      \<le> (1 / 2 + (3 * of_nat S + 1) / 2 ^ 53 :: rat)"
    by (simp add: x1_def)
  show ?thesis using round k0 kS close by blast
qed

lemma accuracy_rounded:
  assumes "vs \<noteq> []"
  shows "\<exists>k. computeAccuracy vs = fl (of_int k / 1000) \<and> 0 \<le> k \<and> k \<le> 1000
            \<and> \<bar>of_int k - 1000 * of_nat (length (filter correct vs)) / of_nat (length vs)\<bar>
                \<le> (1 / 2 + 3001 / 2 ^ 53 :: rat)"
proof -
  have n: "0 < length vs" using assms by simp
  have c: "length (filter correct vs) \<le> length vs" by (rule length_filter_le)
  have S: "(1000::nat) < 2 ^ 53" by simp
  obtain k where k: "Math_round (fmul (fdiv (number_of_nat (length (filter correct vs)))
                                         (number_of_nat (length vs))) (Num (of_nat 1000)))
                     = Num (of_int k)" "0 \<le> k" "k \<le> int 1000"
      "\<bar>of_int k - of_nat 1000 * of_nat (length (filter correct vs)) / of_nat (length vs)\<bar>
         \<le> (1 / 2 + (3 * of_nat 1000 + 1) / 2 ^ 53 :: rat)"
    using scaled_round[OF c n S] by blast
  have "computeAccuracy vs = fl (of_int k / 1000)"
    using assms k(1) by (simp add: computeAccuracy_def Let_def)
  then show ?thesis using k(2,3,4) by auto
qed

lemma accuracy_range: "\<exists>r. computeAccuracy vs = Num r \<and> 0 \<le> r \<and> r \<le> 1"
proof (cases "vs = []")
  case True
  then show ?thesis by (simp add: computeAccuracy_def)
next
  case False
  then obtain k where k: "computeAccuracy vs = fl (of_int k / 1000)" "0 \<le> k" "k \<le> 1000"
    using accuracy_rounded by blast
  have q0: "0 \<le> (of_int k :: rat) / 1000" using k(2) by simp
  have q1: "(of_int k :: rat) / 1000 \<le> of_nat 1" using k(3) by simp
  show ?thesis using fl_bounded[OF q0 q1] k(1) by auto
qed

lemma two_of_three:
  assumes "length vs = 3" and "length (filter correct vs) = 2"
  shows "computeAccuracy vs = fl (667 / 1000)"
proof -
  have "vs \<noteq> []" using assms(1) by auto
  then obtain k where k: "computeAccuracy vs = fl (of_int k / 1000)"
      "\<bar>of_int k - 1000 * of_nat (length (filter correct vs)) / of_nat (length vs)\<bar>
         \<le> (1 / 2 + 3001 / 2 ^ 53 :: rat)"
    using accuracy_rounded by blast
  have "\<bar>(of_int k :: rat) - 2000 / 3\<bar> \<le> 1 / 2 + 3001 / 2 ^ 53"
    using k(2) by (simp add: assms)
  moreover have "(3001::rat) / 2 ^ 53 < 1 / 6" by simp
  ultimately have "(666::rat) < of_int k" and "(of_int k :: rat) < 668" by linarith+
  then have "666 < k" and "k < 668" by simp_all
  then have "k = 667" by simp
  then show ?thesis using k(1) by simp
qed

lemma floor_half: "\<lfloor>(1 / 2 :: rat)\<rfloor> = 0"
  by (simp add: floor_eq_iff)

lemma accuracy_none_correct:
  assumes "vs \<noteq> []" and "filter correct vs = []"
  shows "computeAccuracy vs = Num 0"
  using assms by (simp add: computeAccuracy_def number_of_nat_def fl_def floor_half)

section \<open>The test double on the fixtures\<close>

lemmas schema_defs = z_object_def z_string_def z_number_def z_boolean_def z_array_def
  z_optional_def z_record_def z_unknown_def z_enum_def field_def

lemma fl_not_NaN: "fl x \<noteq> NaN"
  by (simp add: fl_def Let_def)

lemma route_architecture:
  "routeAndValidate scripted expectation_architecture (Inr MOCK_DELEGATE_ARCHITECTURE # rest)
   = (Inr validation_architecture, rest)"
  by (simp add: routeAndValidate_eq DelegateResponseSchema_def MOCK_DELEGATE_ARCHITECTURE_def
      CapabilitiesSchema_def AlternativeSchema_def GovernanceSchema_def schema_defs
      expectation_architecture_def validation_architecture_def)

lemma route_wrong:
  "routeAndValidate scripted expectation_architecture (Inr MOCK_DELEGATE_WRONG # rest)
   = (Inr validation_wrong, rest)"
  by (simp add: routeAndValidate_eq DelegateResponseSchema_def MOCK_DELEGATE_WRONG_def
      CapabilitiesSchema_def AlternativeSchema_def GovernanceSchema_def schema_defs
      expectation_architecture_def validation_wrong_def)

lemma route_rejected: "routeAndValidate scripted e (Inl f # rest) = (Inl f, rest)"
  by (simp add: routeAndValidate_eq)

lemma route_malformed: "routeAndValidate scripted e (Inr JNull # rest) = (Inl ZodError, rest)"
  by (simp add: routeAndValidate_eq DelegateResponseSchema_def z_object_def)

lemma route_exhausted:
  "routeAndValidate scripted e [] = (Inl (Rejected (JStr ''No mock'')), [])"
  by (simp add: routeAndValidate_eq)

lemma weather_cold:
  "fetchWeather scripted (Inr MOCK_WEATHER_COLD # rest) = (Inr (weather_snapshot None), rest)"
  by (simp add: fetchWeather_def promise_defs WeatherResponseSchema_def MOCK_WEATHER_COLD_def
      OverallSchema_def schema_defs weather_snapshot_def fl_not_NaN)

lemma weather_rejected: "fetchWeather scripted (Inl f # rest) = (Inl f, rest)"
  by (simp add: fetchWeather_def promise_defs)

lemma weather_exhausted: "fetchWeather scripted [] = (Inl (Rejected (JStr ''No mock'')), [])"
  by (simp add: fetchWeather_def promise_defs)

lemma vote_approved_parses:
  "\<exists>v. VoteResponseSchema MOCK_VOTE_APPROVED = Some v \<and> VoteResponse.decision v = approved"
  by (simp add: VoteResponseSchema_def MOCK_VOTE_APPROVED_def VoteCountsSchema_def
      AgentVoteSchema_def STRATEGIES_def schema_defs fl_not_NaN)

section \<open>Recording the calls\<close>

lemma recording_routeAndValidate:
  "routeAndValidate (recording c) e (s, l) =
     (case routeAndValidate c e s of
        (r, s') \<Rightarrow> (r, (s', l @ [(''delegate_to_model'', delegate_args e)])))"
  by (simp add: routeAndValidate_eq recording_def split: prod.splits sum.splits option.splits)

lemma recording_routeStage:
  "routeStage (recording c) es [] (s, l) =
     (case routeStage c es [] s of
        (r, s') \<Rightarrow> (r, (s', l @ map (\<lambda>e. (''delegate_to_model'', delegate_args e)) es)))"
proof (induction es arbitrary: s l)
  case Nil
  show ?case by (simp add: resolve_def)
next
  case (Cons e es)
  obtain r s1 where r: "routeAndValidate c e s = (r, s1)" by (cases "routeAndValidate c e s")
  obtain q s2 where q: "routeStage c es [] s1 = (q, s2)" by (cases "routeStage c es [] s1")
  show ?case
    by (cases q) (simp_all add: routeStage_step recording_routeAndValidate r Cons.IH q)
qed

lemma recording_await_call:
  "await (recording c t a) (parse schema) (s, l) =
     (case await (c t a) (parse schema) s of (r, s') \<Rightarrow> (r, (s', l @ [(t, a)])))"
  by (simp add: promise_defs recording_def split: prod.splits sum.splits option.splits)

lemma recording_fetchWeather:
  "fetchWeather (recording c) (s, l) =
     (case fetchWeather c s of
        (r, s') \<Rightarrow> (r, (s', l @ [(''weather_report'', [(''includeAdaptive'', JBool True)])])))"
  unfolding fetchWeather_def by (rule recording_await_call)

lemma recording_voteOnQuality:
  "\<exists>args. \<forall>s l. voteOnQuality (recording c) vs st (s, l) =
     (case voteOnQuality c vs st s of (r, s') \<Rightarrow> (r, (s', l @ [(''consensus_vote'', args)])))"
  unfolding voteOnQuality_def Let_def
  by (intro exI allI) (rule recording_await_call)

section \<open>The report\<close>

lemma pipeline_report:
  assumes "routeStage c (expectations cfg) [] s0 = (Inr vs, s1)"
  shows "\<exists>rep s'. runOraclePipeline c cfg s0 = (Inr rep, s')
           \<and> validations rep = vs \<and> accuracy rep = computeAccuracy vs"
  by (simp add: runOraclePipeline_eq[OF assms] split: prod.splits sum.splits)

lemma pipeline_validations:
  assumes "runOraclePipeline c cfg s0 = (Inr rep, s')"
  shows "\<exists>s1. routeStage c (expectations cfg) [] s0 = (Inr (validations rep), s1)"
    and "accuracy rep = computeAccuracy (validations rep)"
proof -
  obtain vs s1 where vs: "routeStage c (expectations cfg) [] s0 = (Inr vs, s1)"
    using routeStage_total[of c "expectations cfg" s0] by blast
  from pipeline_report[OF vs] assms have "validations rep = vs"
    and "accuracy rep = computeAccuracy vs" by auto
  then show "\<exists>s1. routeStage c (expectations cfg) [] s0 = (Inr (validations rep), s1)"
    and "accuracy rep = computeAccuracy (validations rep)" using vs by auto
qed

section \<open>The vote call\<close>

lemma vote_scripted:
  "voteOnQuality scripted vs st (r # rest) =
     (case r of
        Inl f \<Rightarrow> (Inl f, rest)
      | Inr raw \<Rightarrow>
          (case VoteResponseSchema raw of
             None \<Rightarrow> (Inl ZodError, rest)
           | Some v \<Rightarrow> (Inr v, rest)))"
  by (simp add: voteOnQuality_def Let_def promise_defs split: sum.splits option.splits)

lemma vote_exhausted:
  "voteOnQuality scripted vs st [] = (Inl (Rejected (JStr ''No mock'')), [])"
  by (simp add: voteOnQuality_def Let_def promise_defs)

lemma vote_empty:
  "voteOnQuality c [] None =
     await (c ''consensus_vote''
              [(''proposal'',
                JStr ''Routing accuracy is 0% (0/0 correct).\<newline>\<newline>Results:\<newline>\<newline>\<newline>Should we approve this routing quality?''),
               (''strategy'', JStr ''simple_majority''),
               (''quickMode'', JBool True),
               (''simulateVotes'', JBool False)])
       (parse VoteResponseSchema)"
  by (simp add: voteOnQuality_def Let_def int_str_def)

text \<open>
  The percentage \<open>voteOnQuality\<close> renders is an integer between 0 and 100, so the decimal
  numeral of its integer part is its rendering.
\<close>

lemma vote_percentage:
  assumes "0 < length vs"
  shows "\<exists>k. Math_round (fmul (fdiv (number_of_nat (length (filter correct vs)))
                                   (number_of_nat (length vs))) (Num 100))
               = Num (of_int k) \<and> 0 \<le> k \<and> k \<le> 100"
proof -
  have c: "length (filter correct vs) \<le> length vs" by (rule length_filter_le)
  have S: "(100::nat) < 2 ^ 53" by simp
  show ?thesis using scaled_round[OF c assms S] by auto
qed

section \<open>Validations and expectations, position by position\<close>

lemma list_all2_map_eq:
  assumes "list_all2 P xs ys" and "\<And>x y. P x y \<Longrightarrow> g y = f x"
  shows "map g ys = map f xs"
  using assms by (induction rule: list_all2_induct) simp_all

lemma validations_pointwise:
  assumes "runOraclePipeline c cfg s0 = (Inr rep, s')"
  shows "list_all2 (\<lambda>e v. v = synthetic e \<or> (\<exists>result. v = validated e result))
           (expectations cfg) (validations rep)"
proof -
  obtain s1 where "routeStage c (expectations cfg) [] s0 = (Inr (validations rep), s1)"
    using pipeline_validations(1)[OF assms] by blast
  then show ?thesis by (rule routeStage_pointwise)
qed

lemma recording_pipeline:
  assumes "runOraclePipeline c cfg s = (Inr rep, s')"
  shows "\<exists>args.
      runOraclePipeline (recording c) cfg (s, []) =
        (Inr rep,
         (s', map (\<lambda>e. (''delegate_to_model'', delegate_args e)) (expectations cfg)
              @ (if includeWeather cfg = Some True
                 then [(''weather_report'', [(''includeAdaptive'', JBool True)])] else [])
              @ (if includeVote cfg = Some True then [(''consensus_vote'', args)] else [])))"
proof -
  obtain vs s1 where route: "routeStage c (expectations cfg) [] s = (Inr vs, s1)"
    using routeStage_total[of c "expectations cfg" s] by blast
  let ?l1 = "map (\<lambda>e. (''delegate_to_model'', delegate_args e)) (expectations cfg)"
  have rroute: "routeStage (recording c) (expectations cfg) [] (s, []) = (Inr vs, (s1, ?l1))"
    by (simp add: recording_routeStage route)
  obtain args where args: "\<And>t l. voteOnQuality (recording c) vs (voteStrategy cfg) (t, l) =
     (case voteOnQuality c vs (voteStrategy cfg) t of
        (r, t') \<Rightarrow> (r, (t', l @ [(''consensus_vote'', args)])))"
    using recording_voteOnQuality[of c vs "voteStrategy cfg"] by blast
  obtain wq t2 where wq: "fetchWeather c s1 = (wq, t2)" by (cases "fetchWeather c s1")
  obtain vq1 t3 where vq1: "voteOnQuality c vs (voteStrategy cfg) s1 = (vq1, t3)"
    by (cases "voteOnQuality c vs (voteStrategy cfg) s1")
  obtain vq2 t4 where vq2: "voteOnQuality c vs (voteStrategy cfg) t2 = (vq2, t4)"
    by (cases "voteOnQuality c vs (voteStrategy cfg) t2")
  have "runOraclePipeline (recording c) cfg (s, []) =
        (Inr rep,
         (s', ?l1
              @ (if includeWeather cfg = Some True
                 then [(''weather_report'', [(''includeAdaptive'', JBool True)])] else [])
              @ (if includeVote cfg = Some True then [(''consensus_vote'', args)] else [])))"
    using assms
    unfolding runOraclePipeline_eq[OF route] runOraclePipeline_eq[OF rroute]
    by (cases wq; cases vq1; cases vq2)
       (auto simp: recording_fetchWeather args wq vq1 vq2)
  then show ?thesis by blast
qed

section \<open>The orchestrator always returns a report\<close>

text \<open>
  C5. \<open>runOraclePipeline\<close> is total toward its caller: for every configuration, every
  tool caller (each call settling with a value of any shape or rejecting) and every state
  of the outside world, the promise it returns settles with an Oracle Report (\<open>Inr\<close>) and
  never rejects (\<open>Inl\<close>), however many stages failed.
\<close>

theorem runOraclePipeline_total: "\<exists>rep s'. runOraclePipeline c cfg s = (Inr rep, s')"
proof -
  obtain vs s1 where route: "routeStage c (expectations cfg) [] s = (Inr vs, s1)"
    using routeStage_total[of c "expectations cfg" s] by blast
  obtain wr s2 where tele:
    "(if includeWeather cfg = Some True
      then (case fetchWeather c s1 of
              (Inl f, s2) \<Rightarrow> (None, s2) | (Inr w, s2) \<Rightarrow> (Some w, s2))
      else (None, s1)) = (wr, s2)"
    by (cases "if includeWeather cfg = Some True
      then (case fetchWeather c s1 of
              (Inl f, s2) \<Rightarrow> (None, s2) | (Inr w, s2) \<Rightarrow> (Some w, s2))
      else (None, s1)")
  obtain vr s3 where vote:
    "(if includeVote cfg = Some True
      then (case voteOnQuality c vs (voteStrategy cfg) s2 of
              (Inl f, s3) \<Rightarrow> (None, s3) | (Inr v, s3) \<Rightarrow> (Some v, s3))
      else (None, s2)) = (vr, s3)"
    by (cases "if includeVote cfg = Some True
      then (case voteOnQuality c vs (voteStrategy cfg) s2 of
              (Inl f, s3) \<Rightarrow> (None, s3) | (Inr v, s3) \<Rightarrow> (Some v, s3))
      else (None, s2)")
  have "runOraclePipeline c cfg s =
          (Inr \<lparr>validations = vs, accuracy = computeAccuracy vs,
                weather = wr, voteResult = vr\<rparr>, s3)"
    unfolding runOraclePipeline_eq[OF route] tele by (simp add: vote)
  then show ?thesis by blast
qed

section \<open>Scoring helpers\<close>

text \<open>
  C7. For every validation list, \<open>getMisrouted\<close> returns exactly the validations with
  \<open>correct = false\<close>, in their relative order: it is the list of the elements at the
  positions holding an incorrect validation, its elements are the incorrect validations, it is
  a subsequence of the input, and it is empty when every validation is correct.
\<close>

theorem getMisrouted_exact:
  "getMisrouted vs = nths vs {i. i < length vs \<and> \<not> correct (vs ! i)}
   \<and> set (getMisrouted vs) = {v \<in> set vs. \<not> correct v}
   \<and> subseq (getMisrouted vs) vs
   \<and> ((\<forall>v \<in> set vs. correct v) \<longrightarrow> getMisrouted vs = [])"
proof -
  have "filter (\<lambda>v. \<not> correct v) vs = nths vs {i. i < length vs \<and> \<not> correct (vs ! i)}"
    by (rule filter_eq_nths)
  moreover have "set (filter (\<lambda>v. \<not> correct v) vs) = {v \<in> set vs. \<not> correct v}"
    by simp
  moreover have "subseq (filter (\<lambda>v. \<not> correct v) vs) vs"
    by (rule subseq_filter_left)
  moreover have "(\<forall>v \<in> set vs. correct v) \<longrightarrow> filter (\<lambda>v. \<not> correct v) vs = []"
    by (simp add: filter_empty_conv)
  ultimately show ?thesis unfolding getMisrouted_def by blast
qed

theorem getMisrouted_exact_witness:
  "correct validation_pass \<and> getMisrouted [validation_pass] = []
   \<and> getMisrouted [validation_pass, validation_fail, validation_pass] = [validation_fail]"
proof -
  have all: "\<forall>v \<in> set [validation_pass]. correct v" by (simp add: validation_pass_def)
  have "getMisrouted [validation_pass] = []"
    using getMisrouted_exact[of "[validation_pass]"] all by blast
  moreover have "getMisrouted [validation_pass, validation_fail, validation_pass] = [validation_fail]"
    by (simp add: getMisrouted_def validation_pass_def validation_fail_def)
  moreover have "correct validation_pass" by (simp add: validation_pass_def)
  ultimately show ?thesis by blast
qed

text \<open>
  C8. \<open>weatherConfirms\<close> is a function of the snapshot, the category and the expected
  destination alone. It is false when the snapshot has no \<open>recommendedMappings\<close> list, false
  when no entry of the list has the category, and true exactly when the first entry with the
  category has a \<open>recommendedCli\<close> equal to the expected destination.
\<close>

theorem weatherConfirms_exact:
  "(recommendedMappings w = None \<longrightarrow> \<not> weatherConfirms w cat dest)
   \<and> (\<forall>ms. recommendedMappings w = Some ms
           \<and> (\<forall>m \<in> set ms. RecommendedMapping.category m \<noteq> cat)
         \<longrightarrow> \<not> weatherConfirms w cat dest)
   \<and> (weatherConfirms w cat dest \<longleftrightarrow>
        (\<exists>ms i. recommendedMappings w = Some ms \<and> i < length ms
           \<and> RecommendedMapping.category (ms ! i) = cat
           \<and> (\<forall>j < i. RecommendedMapping.category (ms ! j) \<noteq> cat)
           \<and> recommendedCli (ms ! i) = dest))"
proof (cases "recommendedMappings w")
  case None
  then show ?thesis by (simp add: weatherConfirms_def)
next
  case (Some ms)
  then have rm: "recommendedMappings w = Some ms" .
  show ?thesis
  proof (cases "find (\<lambda>m. RecommendedMapping.category m = cat) ms")
    case None
    then have "\<forall>m \<in> set ms. RecommendedMapping.category m \<noteq> cat"
      by (simp add: find_None_iff)
    then show ?thesis using None rm
      by (auto simp: weatherConfirms_def)
  next
    case (Some m)
    then obtain i where i: "i < length ms" "RecommendedMapping.category (ms ! i) = cat"
        "m = ms ! i" "\<forall>j < i. RecommendedMapping.category (ms ! j) \<noteq> cat"
      by (auto simp: find_Some_iff)
    have uniq: "k = i" if "k < length ms" "RecommendedMapping.category (ms ! k) = cat"
        "\<forall>j < k. RecommendedMapping.category (ms ! j) \<noteq> cat" for k
    proof (rule ccontr)
      assume "k \<noteq> i"
      then consider "k < i" | "i < k" by linarith
      then show False
      proof cases
        case 1
        with i(4) that(2) show False by blast
      next
        case 2
        with that(3) i(2) show False by blast
      qed
    qed
    have wc: "weatherConfirms w cat dest \<longleftrightarrow> recommendedCli (ms ! i) = dest"
      using Some rm i(3) by (simp add: weatherConfirms_def)
    have ex: "\<exists>m \<in> set ms. RecommendedMapping.category m = cat"
      using i(1,2) nth_mem by blast
    have c1: "recommendedMappings w = None \<longrightarrow> \<not> weatherConfirms w cat dest"
      using rm by simp
    have c2: "\<forall>ms'. recommendedMappings w = Some ms'
                \<and> (\<forall>m \<in> set ms'. RecommendedMapping.category m \<noteq> cat)
              \<longrightarrow> \<not> weatherConfirms w cat dest"
      using rm ex by auto
    have c3: "weatherConfirms w cat dest \<longleftrightarrow>
        (\<exists>ms i. recommendedMappings w = Some ms \<and> i < length ms
           \<and> RecommendedMapping.category (ms ! i) = cat
           \<and> (\<forall>j < i. RecommendedMapping.category (ms ! j) \<noteq> cat)
           \<and> recommendedCli (ms ! i) = dest)"
    proof
      assume "weatherConfirms w cat dest"
      then have "recommendedCli (ms ! i) = dest" using wc by simp
      then show "\<exists>ms i. recommendedMappings w = Some ms \<and> i < length ms
           \<and> RecommendedMapping.category (ms ! i) = cat
           \<and> (\<forall>j < i. RecommendedMapping.category (ms ! j) \<noteq> cat)
           \<and> recommendedCli (ms ! i) = dest"
        using rm i(1,2,4) by blast
    next
      assume "\<exists>ms i. recommendedMappings w = Some ms \<and> i < length ms
           \<and> RecommendedMapping.category (ms ! i) = cat
           \<and> (\<forall>j < i. RecommendedMapping.category (ms ! j) \<noteq> cat)
           \<and> recommendedCli (ms ! i) = dest"
      then obtain k where k: "k < length ms" "RecommendedMapping.category (ms ! k) = cat"
          "\<forall>j < k. RecommendedMapping.category (ms ! j) \<noteq> cat" "recommendedCli (ms ! k) = dest"
        using rm by auto
      then have "k = i" using uniq by blast
      then show "weatherConfirms w cat dest" using wc k(4) by simp
    qed
    show ?thesis using c1 c2 c3 by blast
  qed
qed

theorem weatherConfirms_exact_witness:
  "recommendedMappings (weather_snapshot None) = None
   \<and> \<not> weatherConfirms (weather_snapshot None) ''architecture'' ''claude''
   \<and> recommendedMappings (weather_snapshot (Some [mapping_architecture, mapping_code_generation]))
       = Some [mapping_architecture, mapping_code_generation]
   \<and> RecommendedMapping.category mapping_architecture \<noteq> ''devops''
   \<and> RecommendedMapping.category mapping_code_generation \<noteq> ''devops''
   \<and> \<not> weatherConfirms (weather_snapshot (Some [mapping_architecture, mapping_code_generation]))
         ''devops'' ''claude''
   \<and> weatherConfirms (weather_snapshot (Some [mapping_architecture, mapping_code_generation]))
         ''architecture'' ''claude''"
proof -
  let ?ms = "[mapping_architecture, mapping_code_generation]"
  have none: "recommendedMappings (weather_snapshot None) = None"
    by (simp add: weather_snapshot_def)
  have some: "recommendedMappings (weather_snapshot (Some ?ms)) = Some ?ms"
    by (simp add: weather_snapshot_def)
  have absent: "\<forall>m \<in> set ?ms. RecommendedMapping.category m \<noteq> ''devops''"
    by (simp add: mapping_architecture_def mapping_code_generation_def)
  have first: "(0::nat) < length ?ms \<and> RecommendedMapping.category (?ms ! 0) = ''architecture''
      \<and> (\<forall>j < (0::nat). RecommendedMapping.category (?ms ! j) \<noteq> ''architecture'')
      \<and> recommendedCli (?ms ! 0) = ''claude''"
    by (simp add: mapping_architecture_def)
  have "\<not> weatherConfirms (weather_snapshot None) ''architecture'' ''claude''"
    using weatherConfirms_exact[of "weather_snapshot None" "''architecture''" "''claude''"] none
    by blast
  moreover have "\<not> weatherConfirms (weather_snapshot (Some ?ms)) ''devops'' ''claude''"
    using weatherConfirms_exact[of "weather_snapshot (Some ?ms)" "''devops''" "''claude''"]
      some absent by blast
  moreover have "weatherConfirms (weather_snapshot (Some ?ms)) ''architecture'' ''claude''"
    using weatherConfirms_exact[of "weather_snapshot (Some ?ms)" "''architecture''" "''claude''"]
      some first by blast
  moreover have "RecommendedMapping.category mapping_architecture \<noteq> ''devops''"
    and "RecommendedMapping.category mapping_code_generation \<noteq> ''devops''"
    by (simp_all add: mapping_architecture_def mapping_code_generation_def)
  ultimately show ?thesis using none some by blast
qed

section \<open>Accuracy\<close>

text \<open>
  C3. \<open>computeAccuracy\<close> returns exactly 0 for the empty list and, for a non-empty list,
  \<open>Math.round((correct / total) * 1000) / 1000\<close> on the counts of correct and of all
  validations, every operation rounded as a Number: the Number nearest to \<open>k / 1000\<close> for an
  integer \<open>k\<close> at most a half (and \<open>3001 / 2\<^sup>5\<^sup>3\<close>) away from \<open>1000 \<cdot> correct / total\<close>.
  The result is always a finite Number in [0, 1]; 2 correct of 3 give the Number written
  \<open>0.667\<close>. The \<open>accuracy\<close> field of every
  report of \<open>runOraclePipeline\<close> is \<open>computeAccuracy\<close> of the report's complete validation
  list.
\<close>

theorem computeAccuracy_exact:
  "computeAccuracy [] = Num 0
   \<and> (vs \<noteq> [] \<longrightarrow>
        computeAccuracy vs =
          fdiv (Math_round (fmul (fdiv (number_of_nat (length (filter correct vs)))
                                       (number_of_nat (length vs)))
                                 (Num 1000)))
               (Num 1000))
   \<and> (vs \<noteq> [] \<longrightarrow>
        (\<exists>k. computeAccuracy vs = fl (of_int k / 1000)
           \<and> \<bar>of_int k - 1000 * of_nat (length (filter correct vs)) / of_nat (length vs)\<bar>
               \<le> (1 / 2 + 3001 / 2 ^ 53 :: rat)))
   \<and> (\<exists>r. computeAccuracy vs = Num r \<and> 0 \<le> r \<and> r \<le> 1)
   \<and> (length vs = 3 \<and> length (filter correct vs) = 2 \<longrightarrow> computeAccuracy vs = fl (667 / 1000))
   \<and> (runOraclePipeline c cfg s = (Inr rep, s')
         \<longrightarrow> accuracy rep = computeAccuracy (validations rep))"
proof -
  have empty: "computeAccuracy [] = Num 0" by (simp add: computeAccuracy_def)
  have formula: "vs \<noteq> [] \<longrightarrow>
        computeAccuracy vs =
          fdiv (Math_round (fmul (fdiv (number_of_nat (length (filter correct vs)))
                                       (number_of_nat (length vs)))
                                 (Num 1000)))
               (Num 1000)"
    by (simp add: computeAccuracy_def Let_def)
  have rounded: "vs \<noteq> [] \<longrightarrow>
        (\<exists>k. computeAccuracy vs = fl (of_int k / 1000)
           \<and> \<bar>of_int k - 1000 * of_nat (length (filter correct vs)) / of_nat (length vs)\<bar>
               \<le> (1 / 2 + 3001 / 2 ^ 53 :: rat))"
    using accuracy_rounded[of vs] by blast
  have example: "length vs = 3 \<and> length (filter correct vs) = 2
                 \<longrightarrow> computeAccuracy vs = fl (667 / 1000)"
    using two_of_three[of vs] by blast
  have report: "runOraclePipeline c cfg s = (Inr rep, s')
         \<longrightarrow> accuracy rep = computeAccuracy (validations rep)"
    using pipeline_validations(2)[of c cfg s rep s'] by blast
  show ?thesis using empty formula rounded accuracy_range[of vs] example report by blast
qed

theorem computeAccuracy_exact_witness:
  "[validation_pass, validation_pass, validation_fail] \<noteq> []
   \<and> length [validation_pass, validation_pass, validation_fail] = 3
   \<and> length (filter correct [validation_pass, validation_pass, validation_fail]) = 2
   \<and> computeAccuracy [validation_pass, validation_pass, validation_fail] = fl (667 / 1000)
   \<and> (\<exists>rep s'. runOraclePipeline scripted
            \<lparr>expectations = [expectation_architecture, expectation_architecture],
             includeWeather = None, includeVote = None, voteStrategy = None\<rparr>
            [Inr MOCK_DELEGATE_ARCHITECTURE, Inr MOCK_DELEGATE_WRONG] = (Inr rep, s')
          \<and> validations rep = [validation_architecture, validation_wrong]
          \<and> accuracy rep = computeAccuracy [validation_architecture, validation_wrong])"
proof -
  let ?vs = "[validation_pass, validation_pass, validation_fail]"
  let ?cfg = "\<lparr>expectations = [expectation_architecture, expectation_architecture],
             includeWeather = None, includeVote = None, voteStrategy = None\<rparr>"
  have ne: "?vs \<noteq> []" by simp
  have len: "length ?vs = 3" by simp
  have cnt: "length (filter correct ?vs) = 2"
    by (simp add: validation_pass_def validation_fail_def)
  have route: "routeStage scripted (expectations ?cfg) []
                 [Inr MOCK_DELEGATE_ARCHITECTURE, Inr MOCK_DELEGATE_WRONG]
               = (Inr [validation_architecture, validation_wrong], [])"
    by (simp add: routeStage_step route_architecture route_wrong resolve_def)
  obtain rep s' where run: "runOraclePipeline scripted ?cfg
        [Inr MOCK_DELEGATE_ARCHITECTURE, Inr MOCK_DELEGATE_WRONG] = (Inr rep, s')"
      and vs: "validations rep = [validation_architecture, validation_wrong]"
    using pipeline_report[OF route] by blast
  note inst = computeAccuracy_exact[of ?vs scripted ?cfg
      "[Inr MOCK_DELEGATE_ARCHITECTURE, Inr MOCK_DELEGATE_WRONG]" rep s']
  have ex: "computeAccuracy ?vs = fl (667 / 1000)" using inst len cnt by blast
  have "accuracy rep = computeAccuracy (validations rep)" using inst run by blast
  then have "accuracy rep = computeAccuracy [validation_architecture, validation_wrong]"
    using vs by simp
  then show ?thesis using ne len cnt ex run vs by blast
qed

section \<open>Failure isolation in the Route stage\<close>

lemma route_failure:
  assumes "c ''delegate_to_model'' (delegate_args e) s1 = (r, s2)"
      and "case r of Inl f \<Rightarrow> True | Inr raw \<Rightarrow> DelegateResponseSchema raw = None"
  shows "\<exists>f. routeAndValidate c e s1 = (Inl f, s2)"
  using assms by (cases r) (simp_all add: routeAndValidate_eq)

text \<open>
  C2. In \<open>runOraclePipeline\<close>, when the routing call for an expectation \<open>e\<close> rejects, or
  settles with a value that does not match the response schema, the run is not aborted: the
  expectations before \<open>e\<close> keep the validations they had, the validation of \<open>e\<close> is exactly
  one synthetic record (category and expected destination of \<open>e\<close>, \<open>recommended = "ERROR"\<close>,
  \<open>correct = false\<close>, \<open>reasoning = "Tool call failed"\<close>, no alternatives), and the
  expectations after \<open>e\<close> are validated as usual, from the state the failed call left.
\<close>

theorem route_failure_isolated:
  assumes "routeStage c pre [] s0 = (Inr vs1, s1)"
      and "c ''delegate_to_model''
             [(''task'', JStr (task e)),
              (''preferred_capability'', JStr (capability_str (preferredCapability e)))] s1
           = (r, s2)"
      and "case r of Inl f \<Rightarrow> True | Inr raw \<Rightarrow> DelegateResponseSchema raw = None"
      and "routeStage c post [] s2 = (Inr vs2, s3)"
  shows "\<exists>rep s4.
           runOraclePipeline c
             \<lparr>expectations = pre @ e # post, includeWeather = iw, includeVote = iv,
              voteStrategy = st\<rparr> s0 = (Inr rep, s4)
         \<and> validations rep =
             vs1 @ [\<lparr>RoutingValidation.category = RoutingExpectation.category e,
                     recommended = ''ERROR'',
                     expected = expectedPrimaryCli e,
                     correct = False,
                     RoutingValidation.reasoning = ''Tool call failed'',
                     RoutingValidation.alternatives = []\<rparr>] @ vs2
         \<and> length vs1 = length pre \<and> length vs2 = length post"
proof -
  obtain f where f: "routeAndValidate c e s1 = (Inl f, s2)"
    using route_failure[of c e s1 r s2] assms(2,3) by blast
  have tail: "routeStage c (e # post) [] s1 = (Inr (synthetic e # vs2), s3)"
    by (simp add: routeStage_step f assms(4))
  have all: "routeStage c (pre @ e # post) [] s0 = (Inr (vs1 @ synthetic e # vs2), s3)"
    by (rule routeStage_append[OF assms(1) tail])
  have l1: "length vs1 = length pre"
    using routeStage_pointwise[OF assms(1)] by (simp add: list_all2_lengthD)
  have l2: "length vs2 = length post"
    using routeStage_pointwise[OF assms(4)] by (simp add: list_all2_lengthD)
  have "\<exists>rep s4. runOraclePipeline c
             \<lparr>expectations = pre @ e # post, includeWeather = iw, includeVote = iv,
              voteStrategy = st\<rparr> s0 = (Inr rep, s4)
          \<and> validations rep = vs1 @ synthetic e # vs2"
    using pipeline_report[of c "\<lparr>expectations = pre @ e # post, includeWeather = iw,
      includeVote = iv, voteStrategy = st\<rparr>" s0 "vs1 @ synthetic e # vs2" s3] all
    by auto
  then show ?thesis using l1 l2 by auto
qed

theorem route_failure_isolated_witness:
  "(\<exists>rep s4.
     runOraclePipeline scripted
       \<lparr>expectations = [expectation_architecture, expectation_code_generation,
                        expectation_architecture],
        includeWeather = None, includeVote = None, voteStrategy = None\<rparr>
       [Inr MOCK_DELEGATE_ARCHITECTURE, Inl (Rejected (JStr ''Network error'')),
        Inr MOCK_DELEGATE_WRONG]
     = (Inr rep, s4)
   \<and> validations rep =
       [validation_architecture,
        \<lparr>RoutingValidation.category = code_generation, recommended = ''ERROR'',
         expected = ''codex'', correct = False,
         RoutingValidation.reasoning = ''Tool call failed'',
         RoutingValidation.alternatives = []\<rparr>,
        validation_wrong])
   \<and> (\<exists>rep s4.
     runOraclePipeline scripted
       \<lparr>expectations = [expectation_code_generation, expectation_architecture],
        includeWeather = None, includeVote = None, voteStrategy = None\<rparr>
       [Inr JNull, Inr MOCK_DELEGATE_ARCHITECTURE]
     = (Inr rep, s4)
   \<and> validations rep =
       [\<lparr>RoutingValidation.category = code_generation, recommended = ''ERROR'',
         expected = ''codex'', correct = False,
         RoutingValidation.reasoning = ''Tool call failed'',
         RoutingValidation.alternatives = []\<rparr>,
        validation_architecture])"
proof -
  have before: "routeStage scripted [expectation_architecture] []
          [Inr MOCK_DELEGATE_ARCHITECTURE, Inl (Rejected (JStr ''Network error'')),
           Inr MOCK_DELEGATE_WRONG]
        = (Inr [validation_architecture],
           [Inl (Rejected (JStr ''Network error'')), Inr MOCK_DELEGATE_WRONG])"
    by (simp add: routeStage_step route_architecture resolve_def)
  have call: "scripted ''delegate_to_model''
          [(''task'', JStr (task expectation_code_generation)),
           (''preferred_capability'',
              JStr (capability_str (preferredCapability expectation_code_generation)))]
          [Inl (Rejected (JStr ''Network error'')), Inr MOCK_DELEGATE_WRONG]
        = (Inl (Rejected (JStr ''Network error'')), [Inr MOCK_DELEGATE_WRONG])"
    by simp
  have failed: "case (Inl (Rejected (JStr ''Network error'')) :: fault + jsval) of
                  Inl f \<Rightarrow> True | Inr raw \<Rightarrow> DelegateResponseSchema raw = None"
    by simp
  have after: "routeStage scripted [expectation_architecture] [] [Inr MOCK_DELEGATE_WRONG]
        = (Inr [validation_wrong], [])"
    by (simp add: routeStage_step route_wrong resolve_def)
  have rejected: "\<exists>rep s4.
     runOraclePipeline scripted
       \<lparr>expectations = [expectation_architecture, expectation_code_generation,
                        expectation_architecture],
        includeWeather = None, includeVote = None, voteStrategy = None\<rparr>
       [Inr MOCK_DELEGATE_ARCHITECTURE, Inl (Rejected (JStr ''Network error'')),
        Inr MOCK_DELEGATE_WRONG]
     = (Inr rep, s4)
   \<and> validations rep =
       [validation_architecture,
        \<lparr>RoutingValidation.category = code_generation, recommended = ''ERROR'',
         expected = ''codex'', correct = False,
         RoutingValidation.reasoning = ''Tool call failed'',
         RoutingValidation.alternatives = []\<rparr>,
        validation_wrong]"
    using route_failure_isolated[OF before call failed after, of None None None]
    by (simp add: expectation_code_generation_def)
  have before': "routeStage scripted [] [] [Inr JNull, Inr MOCK_DELEGATE_ARCHITECTURE]
        = (Inr [], [Inr JNull, Inr MOCK_DELEGATE_ARCHITECTURE])"
    by (simp add: resolve_def)
  have call': "scripted ''delegate_to_model''
          [(''task'', JStr (task expectation_code_generation)),
           (''preferred_capability'',
              JStr (capability_str (preferredCapability expectation_code_generation)))]
          [Inr JNull, Inr MOCK_DELEGATE_ARCHITECTURE]
        = (Inr JNull, [Inr MOCK_DELEGATE_ARCHITECTURE])"
    by simp
  have failed': "case (Inr JNull :: fault + jsval) of
                  Inl f \<Rightarrow> True | Inr raw \<Rightarrow> DelegateResponseSchema raw = None"
    by (simp add: DelegateResponseSchema_def z_object_def)
  have after': "routeStage scripted [expectation_architecture] [] [Inr MOCK_DELEGATE_ARCHITECTURE]
        = (Inr [validation_architecture], [])"
    by (simp add: routeStage_step route_architecture resolve_def)
  have malformed: "\<exists>rep s4.
     runOraclePipeline scripted
       \<lparr>expectations = [expectation_code_generation, expectation_architecture],
        includeWeather = None, includeVote = None, voteStrategy = None\<rparr>
       [Inr JNull, Inr MOCK_DELEGATE_ARCHITECTURE]
     = (Inr rep, s4)
   \<and> validations rep =
       [\<lparr>RoutingValidation.category = code_generation, recommended = ''ERROR'',
         expected = ''codex'', correct = False,
         RoutingValidation.reasoning = ''Tool call failed'',
         RoutingValidation.alternatives = []\<rparr>,
        validation_architecture]"
    using route_failure_isolated[OF before' call' failed' after', of None None None]
    by (simp add: expectation_code_generation_def)
  show ?thesis using rejected malformed by (rule conjI)
qed

section \<open>The optional stages\<close>

text \<open>
  C4. Every run of \<open>runOraclePipeline\<close> returns a report whose validation list is the
  result of the Route stage alone. Its \<open>weather\<close> field is the snapshot when
  \<open>includeWeather\<close> is \<open>true\<close> and \<open>fetchWeather\<close> succeeded, and \<open>null\<close> otherwise; its
  \<open>voteResult\<close> field is the outcome when \<open>includeVote\<close> is \<open>true\<close> and
  \<open>voteOnQuality\<close>, run on these validations after the telemetry stage whatever that
  stage gave, succeeded, and \<open>null\<close> otherwise. A failure of either stage leaves the field
  \<open>null\<close> and the rest of the report as it is.
\<close>

theorem optional_stages:
  "\<exists>vs s1 s2 s3 rep.
      routeStage c (expectations cfg) [] s0 = (Inr vs, s1)
    \<and> s2 = (if includeWeather cfg = Some True then snd (fetchWeather c s1) else s1)
    \<and> s3 = (if includeVote cfg = Some True
            then snd (voteOnQuality c vs (voteStrategy cfg) s2) else s2)
    \<and> runOraclePipeline c cfg s0 = (Inr rep, s3)
    \<and> validations rep = vs
    \<and> weather rep =
        (if includeWeather cfg = Some True
         then (case fst (fetchWeather c s1) of Inl f \<Rightarrow> None | Inr w \<Rightarrow> Some w)
         else None)
    \<and> voteResult rep =
        (if includeVote cfg = Some True
         then (case fst (voteOnQuality c vs (voteStrategy cfg) s2) of
                 Inl f \<Rightarrow> None | Inr v \<Rightarrow> Some v)
         else None)"
proof -
  obtain vs s1 where route: "routeStage c (expectations cfg) [] s0 = (Inr vs, s1)"
    using routeStage_total[of c "expectations cfg" s0] by blast
  define s2 where "s2 = (if includeWeather cfg = Some True then snd (fetchWeather c s1) else s1)"
  define s3 where "s3 = (if includeVote cfg = Some True
            then snd (voteOnQuality c vs (voteStrategy cfg) s2) else s2)"
  define wr where "wr = (if includeWeather cfg = Some True
         then (case fst (fetchWeather c s1) of Inl f \<Rightarrow> None | Inr w \<Rightarrow> Some w)
         else None)"
  define vr where "vr = (if includeVote cfg = Some True
         then (case fst (voteOnQuality c vs (voteStrategy cfg) s2) of
                 Inl f \<Rightarrow> None | Inr v \<Rightarrow> Some v)
         else None)"
  have tele: "(if includeWeather cfg = Some True
            then (case fetchWeather c s1 of
                    (Inl f, s2) \<Rightarrow> (None, s2) | (Inr w, s2) \<Rightarrow> (Some w, s2))
            else (None, s1)) = (wr, s2)"
    by (simp add: wr_def s2_def split: prod.splits sum.splits)
  have vote: "(if includeVote cfg = Some True
                 then (case voteOnQuality c vs (voteStrategy cfg) s2 of
                         (Inl f, s3) \<Rightarrow> (None, s3) | (Inr v, s3) \<Rightarrow> (Some v, s3))
                 else (None, s2)) = (vr, s3)"
    by (simp add: vr_def s3_def split: prod.splits sum.splits)
  have "runOraclePipeline c cfg s0 =
          (Inr \<lparr>validations = vs, accuracy = computeAccuracy vs,
                weather = wr, voteResult = vr\<rparr>, s3)"
    unfolding runOraclePipeline_eq[OF route] tele by (simp add: vote)
  then show ?thesis
    using route s2_def s3_def wr_def vr_def by (intro exI[of _ vs] exI[of _ s1] exI[of _ s2] exI[of _ s3]) auto
qed

theorem optional_stages_witness:
  "(\<exists>rep s3.
      runOraclePipeline scripted
        \<lparr>expectations = [expectation_architecture], includeWeather = Some True,
         includeVote = Some True, voteStrategy = None\<rparr>
        [Inr MOCK_DELEGATE_ARCHITECTURE, Inl (Rejected (JStr ''Network error'')),
         Inr MOCK_VOTE_APPROVED] = (Inr rep, s3)
    \<and> validations rep = [validation_architecture]
    \<and> weather rep = None
    \<and> voteResult rep \<noteq> None)
   \<and> (\<exists>rep s3.
      runOraclePipeline scripted
        \<lparr>expectations = [expectation_architecture], includeWeather = Some True,
         includeVote = Some True, voteStrategy = None\<rparr> [] = (Inr rep, s3)
    \<and> validations rep = [synthetic expectation_architecture]
    \<and> weather rep = None
    \<and> voteResult rep = None)
   \<and> (\<exists>rep s3.
      runOraclePipeline scripted
        \<lparr>expectations = [expectation_architecture], includeWeather = None,
         includeVote = Some False, voteStrategy = None\<rparr>
        [Inr MOCK_DELEGATE_ARCHITECTURE, Inr MOCK_WEATHER_COLD, Inr MOCK_VOTE_APPROVED]
        = (Inr rep, s3)
    \<and> validations rep = [validation_architecture]
    \<and> weather rep = None
    \<and> voteResult rep = None)"
proof -
  let ?cfg = "\<lparr>expectations = [expectation_architecture], includeWeather = Some True,
         includeVote = Some True, voteStrategy = None\<rparr>"
  let ?script = "[Inr MOCK_DELEGATE_ARCHITECTURE, Inl (Rejected (JStr ''Network error'')),
         Inr MOCK_VOTE_APPROVED]"
  have route: "routeStage scripted [expectation_architecture] [] ?script
        = (Inr [validation_architecture],
           [Inl (Rejected (JStr ''Network error'')), Inr MOCK_VOTE_APPROVED])"
    by (simp add: routeStage_step route_architecture resolve_def)
  obtain v where v: "VoteResponseSchema MOCK_VOTE_APPROVED = Some v"
    using vote_approved_parses by blast
  have one: "\<exists>rep s3.
      runOraclePipeline scripted ?cfg ?script = (Inr rep, s3)
    \<and> validations rep = [validation_architecture]
    \<and> weather rep = None
    \<and> voteResult rep \<noteq> None"
    using optional_stages[of scripted ?cfg ?script]
    by (auto simp: route weather_rejected vote_scripted v)
  have route': "routeStage scripted [expectation_architecture] [] []
        = (Inr [synthetic expectation_architecture], [])"
    by (simp add: routeStage_step route_exhausted resolve_def)
  have two: "\<exists>rep s3.
      runOraclePipeline scripted ?cfg [] = (Inr rep, s3)
    \<and> validations rep = [synthetic expectation_architecture]
    \<and> weather rep = None
    \<and> voteResult rep = None"
    using optional_stages[of scripted ?cfg "[]"]
    by (auto simp: route' weather_exhausted vote_exhausted)
  have route'': "routeStage scripted [expectation_architecture] []
          [Inr MOCK_DELEGATE_ARCHITECTURE, Inr MOCK_WEATHER_COLD, Inr MOCK_VOTE_APPROVED]
        = (Inr [validation_architecture], [Inr MOCK_WEATHER_COLD, Inr MOCK_VOTE_APPROVED])"
    by (simp add: routeStage_step route_architecture resolve_def)
  have three: "\<exists>rep s3.
      runOraclePipeline scripted
        \<lparr>expectations = [expectation_architecture], includeWeather = None,
         includeVote = Some False, voteStrategy = None\<rparr>
        [Inr MOCK_DELEGATE_ARCHITECTURE, Inr MOCK_WEATHER_COLD, Inr MOCK_VOTE_APPROVED]
        = (Inr rep, s3)
    \<and> validations rep = [validation_architecture]
    \<and> weather rep = None
    \<and> voteResult rep = None"
    using optional_stages[of scripted "\<lparr>expectations = [expectation_architecture],
         includeWeather = None, includeVote = Some False, voteStrategy = None\<rparr>"
        "[Inr MOCK_DELEGATE_ARCHITECTURE, Inr MOCK_WEATHER_COLD, Inr MOCK_VOTE_APPROVED]"]
    by (auto simp: route'')
  show ?thesis using one two three by blast
qed

section \<open>One routing call per expectation, in order\<close>

text \<open>
  C6. For every configuration, \<open>runOraclePipeline\<close> issues exactly one routing call per
  expectation, one after the other in configuration order, before any other call: run with
  a caller that records its calls, the record is the list of the \<open>delegate_to_model\<close> calls
  of the expectations in order, then the telemetry call and the vote call when requested,
  and the report is the one of the plain caller. The validation list has the length of the
  expectation list, and its i-th entry has the category and the expected destination of the
  i-th expectation.
\<close>

theorem calls_in_order:
  "\<exists>rep s' args.
      runOraclePipeline (recording c) cfg (s, []) =
        (Inr rep,
         (s', map (\<lambda>e. (''delegate_to_model'',
                         [(''task'', JStr (task e)),
                          (''preferred_capability'',
                             JStr (capability_str (preferredCapability e)))]))
                (expectations cfg)
              @ (if includeWeather cfg = Some True
                 then [(''weather_report'', [(''includeAdaptive'', JBool True)])] else [])
              @ (if includeVote cfg = Some True then [(''consensus_vote'', args)] else [])))
    \<and> runOraclePipeline c cfg s = (Inr rep, s')
    \<and> length (validations rep) = length (expectations cfg)
    \<and> map RoutingValidation.category (validations rep)
        = map RoutingExpectation.category (expectations cfg)
    \<and> map expected (validations rep) = map expectedPrimaryCli (expectations cfg)"
proof -
  obtain rep s' where run: "runOraclePipeline c cfg s = (Inr rep, s')"
    using pipeline_returns[of c cfg s] by blast
  obtain args where rec: "runOraclePipeline (recording c) cfg (s, []) =
        (Inr rep,
         (s', map (\<lambda>e. (''delegate_to_model'', delegate_args e)) (expectations cfg)
              @ (if includeWeather cfg = Some True
                 then [(''weather_report'', [(''includeAdaptive'', JBool True)])] else [])
              @ (if includeVote cfg = Some True then [(''consensus_vote'', args)] else [])))"
    using recording_pipeline[OF run] by blast
  note pw = validations_pointwise[OF run]
  have len: "length (validations rep) = length (expectations cfg)"
    using pw by (simp add: list_all2_lengthD)
  have cat: "map RoutingValidation.category (validations rep)
        = map RoutingExpectation.category (expectations cfg)"
    using pw by (rule list_all2_map_eq) auto
  have exp: "map expected (validations rep) = map expectedPrimaryCli (expectations cfg)"
    using pw by (rule list_all2_map_eq) auto
  show ?thesis using run rec len cat exp by blast
qed

theorem calls_in_order_witness:
  "\<exists>rep s' args.
      runOraclePipeline (recording scripted)
        \<lparr>expectations = [expectation_architecture, expectation_code_generation],
         includeWeather = Some True, includeVote = None, voteStrategy = None\<rparr>
        ([Inr MOCK_DELEGATE_ARCHITECTURE, Inr JNull, Inr MOCK_WEATHER_COLD], []) =
        (Inr rep,
         (s', [(''delegate_to_model'',
                [(''task'', JStr ''Design a microservices architecture for a payment system''),
                 (''preferred_capability'', JStr ''reasoning'')]),
               (''delegate_to_model'',
                [(''task'', JStr ''Write unit tests for a TypeScript REST API''),
                 (''preferred_capability'', JStr ''code'')]),
               (''weather_report'', [(''includeAdaptive'', JBool True)])]))
    \<and> map RoutingValidation.category (validations rep) = [architecture, code_generation]
    \<and> map expected (validations rep) = [''claude'', ''codex'']"
  using calls_in_order[of scripted
      "\<lparr>expectations = [expectation_architecture, expectation_code_generation],
         includeWeather = Some True, includeVote = None, voteStrategy = None\<rparr>"
      "[Inr MOCK_DELEGATE_ARCHITECTURE, Inr JNull, Inr MOCK_WEATHER_COLD]"]
  by (auto simp: expectation_architecture_def expectation_code_generation_def)

section \<open>Voting on an empty validation list\<close>

text \<open>
  C10. \<open>voteOnQuality\<close> on an empty validation list does not divide: the \<open>total > 0\<close>
  guard gives the percentage 0, and the proposal reads
  \<open>Routing accuracy is 0% (0/0 correct).\<close>, an empty result list and the closing question.
  Exactly one call is issued, \<open>consensus_vote\<close> with that proposal, the default strategy
  \<open>simple_majority\<close>, \<open>quickMode = true\<close> and \<open>simulateVotes = false\<close>; the function
  fails only when that call rejects or its response does not match the vote schema, and
  returns the parsed response otherwise.
\<close>

theorem vote_on_empty:
  "voteOnQuality c [] None s =
     (case c ''consensus_vote''
             [(''proposal'',
               JStr ''Routing accuracy is 0% (0/0 correct).\<newline>\<newline>Results:\<newline>\<newline>\<newline>Should we approve this routing quality?''),
              (''strategy'', JStr ''simple_majority''),
              (''quickMode'', JBool True),
              (''simulateVotes'', JBool False)] s of
        (Inl f, s') \<Rightarrow> (Inl f, s')
      | (Inr raw, s') \<Rightarrow>
          (case VoteResponseSchema raw of
             None \<Rightarrow> (Inl ZodError, s')
           | Some v \<Rightarrow> (Inr v, s')))
   \<and> snd (snd (voteOnQuality (recording c) [] None (s, []))) =
       [(''consensus_vote'',
         [(''proposal'',
           JStr ''Routing accuracy is 0% (0/0 correct).\<newline>\<newline>Results:\<newline>\<newline>\<newline>Should we approve this routing quality?''),
          (''strategy'', JStr ''simple_majority''),
          (''quickMode'', JBool True),
          (''simulateVotes'', JBool False)])]"
proof -
  have one: "voteOnQuality c [] None s =
     (case c ''consensus_vote''
             [(''proposal'',
               JStr ''Routing accuracy is 0% (0/0 correct).\<newline>\<newline>Results:\<newline>\<newline>\<newline>Should we approve this routing quality?''),
              (''strategy'', JStr ''simple_majority''),
              (''quickMode'', JBool True),
              (''simulateVotes'', JBool False)] s of
        (Inl f, s') \<Rightarrow> (Inl f, s')
      | (Inr raw, s') \<Rightarrow>
          (case VoteResponseSchema raw of
             None \<Rightarrow> (Inl ZodError, s')
           | Some v \<Rightarrow> (Inr v, s')))"
    unfolding vote_empty
    by (simp add: promise_defs split: prod.splits sum.splits option.splits)
  have two: "snd (snd (voteOnQuality (recording c) [] None (s, []))) =
       [(''consensus_vote'',
         [(''proposal'',
           JStr ''Routing accuracy is 0% (0/0 correct).\<newline>\<newline>Results:\<newline>\<newline>\<newline>Should we approve this routing quality?''),
          (''strategy'', JStr ''simple_majority''),
          (''quickMode'', JBool True),
          (''simulateVotes'', JBool False)])]"
    unfolding vote_empty recording_await_call
    by (simp split: prod.splits)
  show ?thesis using one two by (rule conjI)
qed

theorem vote_on_empty_witness:
  "\<exists>v. voteOnQuality scripted [] None [Inr MOCK_VOTE_APPROVED] = (Inr v, [])
       \<and> VoteResponse.decision v = approved"
proof -
  obtain v where v: "VoteResponseSchema MOCK_VOTE_APPROVED = Some v"
      "VoteResponse.decision v = approved"
    using vote_approved_parses by blast
  from vote_on_empty[of scripted "[Inr MOCK_VOTE_APPROVED]"]
  have "voteOnQuality scripted [] None [Inr MOCK_VOTE_APPROVED] = (Inr v, [])"
    by (simp add: v(1))
  then show ?thesis using v(2) by blast
qed

section \<open>The correctness rule\<close>

lemma containment_rule:
  "correct (validated e result) \<longleftrightarrow>
     (\<exists>m \<in> set (acceptableModels e).
        sublist m (recommended (validated e result))
        \<or> sublist (recommended (validated e result)) m)"
  by (simp add: list_ex_iff str_includes_sublist)

lemma validation_rule:
  assumes "v = synthetic e \<or> (\<exists>result. v = validated e result)"
  shows "correct v \<longleftrightarrow>
           v \<noteq> synthetic e
           \<and> (\<exists>m \<in> set (acceptableModels e). sublist m (recommended v) \<or> sublist (recommended v) m)"
proof (cases "v = synthetic e")
  case True
  then show ?thesis by simp
next
  case False
  then obtain result where v: "v = validated e result" using assms by blast
  have "correct v \<longleftrightarrow>
          (\<exists>m \<in> set (acceptableModels e). sublist m (recommended v) \<or> sublist (recommended v) m)"
    using containment_rule[of e result] by (simp only: v)
  then show ?thesis using False by blast
qed

text \<open>
  C1, as the code has it. \<open>routeAndValidate\<close> sets \<open>correct\<close> by the bidirectional rule: true
  iff the recommended destination contains, or is contained in, an acceptable model of the
  expectation (\<open>sublist\<close> is contiguous containment). In a report of \<open>runOraclePipeline\<close>,
  the correctness flag of a validation is true iff the validation is not the synthetic
  failure record of its expectation and the rule holds; so the rule decides the flag of every
  validation whose expectation has no acceptable model containing, or contained in,
  \<open>"ERROR"\<close>. A synthetic record has \<open>correct = false\<close> whatever the acceptable set.
\<close>

theorem correctness_rule:
  "(routeAndValidate c e s = (Inr v, s') \<longrightarrow>
      (correct v \<longleftrightarrow>
         (\<exists>m \<in> set (acceptableModels e). sublist m (recommended v) \<or> sublist (recommended v) m)))
   \<and> (runOraclePipeline c cfg s0 = (Inr rep, s1) \<and> i < length (validations rep) \<longrightarrow>
        (correct (validations rep ! i) \<longleftrightarrow>
           validations rep ! i \<noteq>
             \<lparr>RoutingValidation.category = RoutingExpectation.category (expectations cfg ! i),
              recommended = ''ERROR'',
              expected = expectedPrimaryCli (expectations cfg ! i),
              correct = False,
              RoutingValidation.reasoning = ''Tool call failed'',
              RoutingValidation.alternatives = []\<rparr>
           \<and> (\<exists>m \<in> set (acceptableModels (expectations cfg ! i)).
                 sublist m (recommended (validations rep ! i))
                 \<or> sublist (recommended (validations rep ! i)) m)))
   \<and> (runOraclePipeline c cfg s0 = (Inr rep, s1) \<and> i < length (validations rep)
        \<and> \<not> (\<exists>m \<in> set (acceptableModels (expectations cfg ! i)).
                sublist m ''ERROR'' \<or> sublist ''ERROR'' m) \<longrightarrow>
        (correct (validations rep ! i) \<longleftrightarrow>
           (\<exists>m \<in> set (acceptableModels (expectations cfg ! i)).
              sublist m (recommended (validations rep ! i))
              \<or> sublist (recommended (validations rep ! i)) m)))"
proof -
  have one: "routeAndValidate c e s = (Inr v, s') \<longrightarrow>
      (correct v \<longleftrightarrow>
         (\<exists>m \<in> set (acceptableModels e). sublist m (recommended v) \<or> sublist (recommended v) m))"
  proof
    assume "routeAndValidate c e s = (Inr v, s')"
    then obtain result where "v = validated e result"
      using routeAndValidate_Inr[of c e s v s'] by blast
    then show "correct v \<longleftrightarrow>
         (\<exists>m \<in> set (acceptableModels e). sublist m (recommended v) \<or> sublist (recommended v) m)"
      using containment_rule[of e result] by (simp only:)
  qed
  have pos: "validations rep ! i = synthetic (expectations cfg ! i)
        \<or> (\<exists>result. validations rep ! i = validated (expectations cfg ! i) result)"
    if "runOraclePipeline c cfg s0 = (Inr rep, s1)" and "i < length (validations rep)"
    using validations_pointwise[OF that(1)] that(2) by (auto simp: list_all2_conv_all_nth)
  have two: "runOraclePipeline c cfg s0 = (Inr rep, s1) \<and> i < length (validations rep) \<longrightarrow>
        (correct (validations rep ! i) \<longleftrightarrow>
           validations rep ! i \<noteq> synthetic (expectations cfg ! i)
           \<and> (\<exists>m \<in> set (acceptableModels (expectations cfg ! i)).
                 sublist m (recommended (validations rep ! i))
                 \<or> sublist (recommended (validations rep ! i)) m))"
    using pos validation_rule[of "validations rep ! i" "expectations cfg ! i"] by blast
  have three: "runOraclePipeline c cfg s0 = (Inr rep, s1) \<and> i < length (validations rep)
        \<and> \<not> (\<exists>m \<in> set (acceptableModels (expectations cfg ! i)).
                sublist m ''ERROR'' \<or> sublist ''ERROR'' m) \<longrightarrow>
        (correct (validations rep ! i) \<longleftrightarrow>
           (\<exists>m \<in> set (acceptableModels (expectations cfg ! i)).
              sublist m (recommended (validations rep ! i))
              \<or> sublist (recommended (validations rep ! i)) m))"
  proof (intro impI, elim conjE)
    assume run: "runOraclePipeline c cfg s0 = (Inr rep, s1)" and i: "i < length (validations rep)"
      and clean: "\<not> (\<exists>m \<in> set (acceptableModels (expectations cfg ! i)).
                sublist m ''ERROR'' \<or> sublist ''ERROR'' m)"
    show "correct (validations rep ! i) \<longleftrightarrow>
           (\<exists>m \<in> set (acceptableModels (expectations cfg ! i)).
              sublist m (recommended (validations rep ! i))
              \<or> sublist (recommended (validations rep ! i)) m)"
    proof (cases "validations rep ! i = synthetic (expectations cfg ! i)")
      case True
      then have "recommended (validations rep ! i) = ''ERROR''"
        and "\<not> correct (validations rep ! i)" by simp_all
      then show ?thesis using clean by simp
    next
      case False
      then show ?thesis using two run i by blast
    qed
  qed
  show ?thesis using one two three by blast
qed

theorem correctness_rule_witness:
  "routeAndValidate scripted expectation_architecture [Inr MOCK_DELEGATE_ARCHITECTURE]
     = (Inr validation_architecture, [])
   \<and> correct validation_architecture
   \<and> (\<exists>m \<in> set (acceptableModels expectation_architecture).
         sublist m (recommended validation_architecture)
         \<or> sublist (recommended validation_architecture) m)
   \<and> (\<exists>rep s1.
         runOraclePipeline scripted
           \<lparr>expectations = [expectation_architecture, expectation_architecture],
            includeWeather = None, includeVote = None, voteStrategy = None\<rparr>
           [Inr MOCK_DELEGATE_WRONG] = (Inr rep, s1)
       \<and> (1::nat) < length (validations rep)
       \<and> \<not> correct (validations rep ! 0)
       \<and> \<not> correct (validations rep ! 1)
       \<and> validations rep ! 0 \<noteq> synthetic expectation_architecture
       \<and> validations rep ! 1 = synthetic expectation_architecture
       \<and> \<not> (\<exists>m \<in> set (acceptableModels (expectation_architecture)).
                sublist m ''ERROR'' \<or> sublist ''ERROR'' m)
       \<and> \<not> (\<exists>m \<in> set (acceptableModels (expectation_architecture)).
                sublist m (recommended (validations rep ! 1))
                \<or> sublist (recommended (validations rep ! 1)) m))"
proof -
  let ?cfg = "\<lparr>expectations = [expectation_architecture, expectation_architecture],
            includeWeather = None, includeVote = None, voteStrategy = None\<rparr>"
  have r: "routeAndValidate scripted expectation_architecture [Inr MOCK_DELEGATE_ARCHITECTURE]
     = (Inr validation_architecture, [])"
    by (rule route_architecture)
  have c: "correct validation_architecture" by (simp add: validation_architecture_def)
  from correctness_rule[of scripted expectation_architecture "[Inr MOCK_DELEGATE_ARCHITECTURE]"
      validation_architecture "[]"] r c
  have m: "\<exists>m \<in> set (acceptableModels expectation_architecture).
         sublist m (recommended validation_architecture)
         \<or> sublist (recommended validation_architecture) m"
    by blast
  have route: "routeStage scripted (expectations ?cfg) [] [Inr MOCK_DELEGATE_WRONG]
        = (Inr [validation_wrong, synthetic expectation_architecture], [])"
    by (simp add: routeStage_step route_wrong route_exhausted resolve_def)
  obtain rep s1 where run: "runOraclePipeline scripted ?cfg [Inr MOCK_DELEGATE_WRONG] = (Inr rep, s1)"
      and vs: "validations rep = [validation_wrong, synthetic expectation_architecture]"
    using pipeline_report[OF route] by blast
  have len: "(1::nat) < length (validations rep)" using vs by simp
  have v1: "validations rep ! 1 = synthetic expectation_architecture" using vs by simp
  have v0: "validations rep ! 0 \<noteq> synthetic expectation_architecture"
    using vs by (simp add: validation_wrong_def)
  from correctness_rule[of scripted _ _ _ _ ?cfg "[Inr MOCK_DELEGATE_WRONG]" rep s1 1] run len v1
  have n1: "\<not> correct (validations rep ! 1)"
    by (simp add: expectation_architecture_def)
  have n0: "\<not> correct (validations rep ! 0)" using vs by (simp add: validation_wrong_def)
  have clean: "\<not> (\<exists>m \<in> set (acceptableModels (expectation_architecture)).
                sublist m ''ERROR'' \<or> sublist ''ERROR'' m)"
    by (simp add: expectation_architecture_def str_includes_sublist[symmetric])
  have e1: "expectations ?cfg ! 1 = expectation_architecture" by simp
  have clean1: "\<not> (\<exists>m \<in> set (acceptableModels (expectations ?cfg ! 1)).
                sublist m ''ERROR'' \<or> sublist ''ERROR'' m)"
    unfolding e1 by (rule clean)
  from correctness_rule[of scripted _ _ _ _ ?cfg "[Inr MOCK_DELEGATE_WRONG]" rep s1 1]
    run len clean1
  have "correct (validations rep ! 1) \<longleftrightarrow>
          (\<exists>m \<in> set (acceptableModels (expectations ?cfg ! 1)).
              sublist m (recommended (validations rep ! 1))
              \<or> sublist (recommended (validations rep ! 1)) m)"
    by blast
  with n1 have rule: "\<not> (\<exists>m \<in> set (acceptableModels (expectation_architecture)).
                sublist m (recommended (validations rep ! 1))
                \<or> sublist (recommended (validations rep ! 1)) m)"
    unfolding e1 by blast
  show ?thesis using r c m run len n0 n1 v0 v1 clean rule by blast
qed

text \<open>
  C1 as stated fails on a synthetic validation: an expectation whose acceptable model is
  named \<open>"ERROR"\<close>, and a routing call that rejects. The marker contains the acceptable
  model, and the flag is false.
\<close>

theorem correctness_rule_counterexample:
  "runOraclePipeline scripted
     \<lparr>expectations = [expectation_error_named], includeWeather = None, includeVote = None,
      voteStrategy = None\<rparr> []
   = (Inr \<lparr>validations = [synthetic expectation_error_named], accuracy = Num 0,
           weather = None, voteResult = None\<rparr>, [])
   \<and> \<not> correct (synthetic expectation_error_named)
   \<and> recommended (synthetic expectation_error_named) = ''ERROR''
   \<and> acceptableModels expectation_error_named = [''ERROR'']
   \<and> str_includes ''ERROR'' ''ERROR''"
proof -
  have route: "routeStage scripted [expectation_error_named] [] []
        = (Inr [synthetic expectation_error_named], [])"
    by (simp add: routeStage_step route_exhausted resolve_def)
  have acc: "computeAccuracy [synthetic expectation_error_named] = Num 0"
    by (rule accuracy_none_correct) simp_all
  have "runOraclePipeline scripted
     \<lparr>expectations = [expectation_error_named], includeWeather = None, includeVote = None,
      voteStrategy = None\<rparr> []
   = (Inr \<lparr>validations = [synthetic expectation_error_named], accuracy = Num 0,
           weather = None, voteResult = None\<rparr>, [])"
    by (subst runOraclePipeline_eq[of _ _ _ "[synthetic expectation_error_named]" "[]"])
       (simp_all add: route acc)
  then show ?thesis by (simp add: expectation_error_named_def)
qed

end
